theory Spec2Isabelle
  imports Main
begin

section \<open>The NachOS post office: mailboxes over an unreliable network\<close>

text \<open>
  A shallow embedding of \<^verbatim>\<open>code/threads/list.cc\<close> and \<^verbatim>\<open>code/network/post.cc\<close>.
  The first part models the singly linked \<^verbatim>\<open>List\<close> with an explicit store of list
  elements; the second part models the mailboxes, the unreliable send path and the
  reliable send/receive protocol over queues of mails.
\<close>

subsection \<open>list.cc: the singly linked list\<close>

text \<open>
  A \<^verbatim>\<open>ListElement\<close> holds the item, the sort key and the \<^verbatim>\<open>next\<close> pointer. Pointers
  are addresses into a store; \<^verbatim>\<open>NULL\<close> is \<open>None\<close>.
\<close>

type_synonym addr = nat

record 'a ListElement =
  item :: 'a
  key :: int
  nxt :: "addr option"

text \<open>
  A \<^verbatim>\<open>List\<close> is the pair of pointers \<^verbatim>\<open>first\<close> and \<^verbatim>\<open>last\<close>. The store of allocated
  elements is kept with it; \<open>brk\<close> is the address the next \<^verbatim>\<open>new ListElement\<close> returns.
\<close>

record 'a List =
  cells :: "addr \<Rightarrow> 'a ListElement option"
  first :: "addr option"
  last_ptr :: "addr option"
  brk :: addr

text \<open>
  The ways a process dies: a failed \<^verbatim>\<open>ASSERT\<close>, the \<^verbatim>\<open>ASSERT(false)\<close> after "Network
  Error", a read through \<^verbatim>\<open>NULL\<close>, a division by a divisor that is not positive, and a
  \<^verbatim>\<open>strlen\<close> that runs past the end of a character array.
\<close>

datatype fault = AssertionFailed | NetworkError | NullDereference | BadArithmetic | BufferOverrun

text \<open>\<^verbatim>\<open>List::List\<close>: \<^verbatim>\<open>first = last = NULL\<close>.\<close>

definition List_new :: "'a List" where
  "List_new = \<lparr>cells = (\<lambda>_. None), first = None, last_ptr = None, brk = 0\<rparr>"

text \<open>\<^verbatim>\<open>List::IsEmpty\<close>: \<^verbatim>\<open>first == NULL\<close>.\<close>

definition IsEmpty :: "'a List \<Rightarrow> bool" where
  "IsEmpty l = (first l = None)"

text \<open>
  \<^verbatim>\<open>List::Append\<close>: allocate an element with key 0 and \<^verbatim>\<open>next = NULL\<close>; on an empty list
  it becomes \<^verbatim>\<open>first\<close> and \<^verbatim>\<open>last\<close>, otherwise \<^verbatim>\<open>last->next = element; last = element\<close>.
  Writing through a \<^verbatim>\<open>last\<close> that is \<^verbatim>\<open>NULL\<close> or dangling is a fault.
\<close>

definition Append :: "'a List \<Rightarrow> 'a \<Rightarrow> fault + 'a List" where
  "Append l x =
     (let element = brk l;
          l1 = l\<lparr>cells := (cells l)(element \<mapsto> \<lparr>item = x, key = 0, nxt = None\<rparr>),
                 brk := Suc (brk l)\<rparr>
      in if IsEmpty l then Inr (l1\<lparr>first := Some element, last_ptr := Some element\<rparr>)
         else (case last_ptr l1 of
                 None \<Rightarrow> Inl NullDereference
               | Some la \<Rightarrow>
                   (case cells l1 la of
                      None \<Rightarrow> Inl NullDereference
                    | Some e \<Rightarrow>
                        Inr (l1\<lparr>cells := (cells l1)(la \<mapsto> e\<lparr>nxt := Some element\<rparr>),
                                last_ptr := Some element\<rparr>))))"

text \<open>
  \<^verbatim>\<open>List::SortedRemove\<close>: \<^verbatim>\<open>NULL\<close> on an empty list (the list is unchanged); otherwise
  the item of the first element, which is unlinked and deleted. The key is returned as
  well (the caller may pass \<^verbatim>\<open>keyPtr = NULL\<close> and ignore it).
\<close>

definition SortedRemove :: "'a List \<Rightarrow> fault + (('a \<times> int) option \<times> 'a List)" where
  "SortedRemove l =
     (if IsEmpty l then Inr (None, l)
      else (case first l of
              None \<Rightarrow> Inl NullDereference
            | Some element \<Rightarrow>
                (case cells l element of
                   None \<Rightarrow> Inl NullDereference
                 | Some e \<Rightarrow>
                     (let l1 = (if first l = last_ptr l
                                then l\<lparr>first := None, last_ptr := None\<rparr>
                                else l\<lparr>first := nxt e\<rparr>)
                      in Inr (Some (item e, key e),
                              l1\<lparr>cells := (cells l1)(element := None)\<rparr>)))))"

text \<open>\<^verbatim>\<open>List::Remove\<close>: \<^verbatim>\<open>SortedRemove(NULL)\<close>, the key is dropped.\<close>

definition Remove :: "'a List \<Rightarrow> fault + ('a option \<times> 'a List)" where
  "Remove l =
     (case SortedRemove l of
        Inl f \<Rightarrow> Inl f
      | Inr (r, l') \<Rightarrow> Inr (map_option fst r, l'))"

text \<open>\<^verbatim>\<open>List::GetFirst\<close>: \<^verbatim>\<open>return first->item\<close>, with no test of \<^verbatim>\<open>first\<close>.\<close>

definition GetFirst :: "'a List \<Rightarrow> fault + 'a" where
  "GetFirst l =
     (case first l of
        None \<Rightarrow> Inl NullDereference
      | Some a \<Rightarrow> (case cells l a of None \<Rightarrow> Inl NullDereference | Some e \<Rightarrow> Inr (item e)))"

text \<open>
  The abstraction: \<open>chain h ns p\<close> holds when following \<^verbatim>\<open>next\<close> from \<open>p\<close> visits
  exactly the addresses of \<open>ns\<close>, finds there the items of \<open>ns\<close>, and ends in \<^verbatim>\<open>NULL\<close>.
\<close>

fun chain :: "(addr \<Rightarrow> 'a ListElement option) \<Rightarrow> (addr \<times> 'a) list \<Rightarrow> addr option \<Rightarrow> bool" where
  "chain h [] p = (p = None)"
| "chain h ((a, x) # ns) p =
     (p = Some a \<and> (case h a of None \<Rightarrow> False | Some e \<Rightarrow> item e = x \<and> chain h ns (nxt e)))"

text \<open>
  \<open>List_holds l ns\<close>: the list is well formed, its elements live at the distinct
  addresses of \<open>ns\<close>, all below \<open>brk\<close>, and \<^verbatim>\<open>last\<close> points to the final one. The items
  in list order are \<open>map snd ns\<close>.
\<close>

definition List_holds :: "'a List \<Rightarrow> (addr \<times> 'a) list \<Rightarrow> bool" where
  "List_holds l ns =
     (chain (cells l) ns (first l) \<and> distinct (map fst ns) \<and>
      (\<forall>a \<in> set (map fst ns). a < brk l) \<and>
      last_ptr l = (if ns = [] then None else Some (fst (last ns))))"

text \<open>Repeated \<^verbatim>\<open>Append\<close> and repeated \<^verbatim>\<open>Remove\<close>, stopping at the first fault.\<close>

fun Append_all :: "'a List \<Rightarrow> 'a list \<Rightarrow> fault + 'a List" where
  "Append_all l [] = Inr l"
| "Append_all l (x # xs) =
     (case Append l x of Inl f \<Rightarrow> Inl f | Inr l' \<Rightarrow> Append_all l' xs)"

fun Remove_n :: "'a List \<Rightarrow> nat \<Rightarrow> fault + ('a option list \<times> 'a List)" where
  "Remove_n l 0 = Inr ([], l)"
| "Remove_n l (Suc n) =
     (case Remove l of
        Inl f \<Rightarrow> Inl f
      | Inr (r, l') \<Rightarrow>
          (case Remove_n l' n of
             Inl f \<Rightarrow> Inl f
           | Inr (rs, l'') \<Rightarrow> Inr (r # rs, l'')))"

subsection \<open>post.cc: headers, mails and the post office\<close>

text \<open>
  Modelled from the spec: \<^verbatim>\<open>post.h\<close> and \<^verbatim>\<open>network.h\<close> are not among the sources. The
  route header has source machine, destination machine and payload length; the mailbox
  header has source mailbox, destination mailbox, payload length and the
  remaining-fragment count. Mailbox and machine ids are signed (the code tests
  \<^verbatim>\<open>0 <= mailHdr.to\<close>); lengths are byte counts.
\<close>

record PacketHeader =
  p_to :: int
  p_from :: int
  p_length :: nat

record MailHeader =
  m_to :: int
  m_from :: int
  m_length :: nat
  m_remainingParts :: int

text \<open>
  A \<^verbatim>\<open>Mail\<close>: both headers, the payload array \<^verbatim>\<open>data[MaxMailSize]\<close> (the bytes written so
  far), and the bookkeeping fields \<^verbatim>\<open>remainingParts\<close> and \<^verbatim>\<open>attempts\<close>.
\<close>

record Mail =
  pktHdr :: PacketHeader
  mailHdr :: MailHeader
  data :: string
  remainingParts :: int
  attempts :: int

text \<open>
  Modelled from the spec: the constants an implementation surfaces as configuration.
  \<^verbatim>\<open>MaxMailSize\<close>, \<^verbatim>\<open>MAXREEMISSIONS\<close> (the retry ceiling) and \<^verbatim>\<open>sizeof(MailHeader)\<close> are
  declared in headers that are not among the sources, so they are parameters.
\<close>

record Config =
  MaxMailSize :: nat
  MAXREEMISSIONS :: nat
  sizeofMailHeader :: nat

text \<open>
  What the network device is handed by \<^verbatim>\<open>network->Send(pktHdr, buffer)\<close>: the route
  header and the buffer. The buffer starts with the mailbox header (kept as the header
  value: the object representation is memory layout) followed by the payload bytes.
\<close>

type_synonym packet = "PacketHeader \<times> MailHeader \<times> string"

text \<open>
  The post office. \<open>boxes\<close> holds the message queue of every mailbox, so \<^verbatim>\<open>numBoxes\<close> is
  its length. \<open>sentMessages\<close> is the in-flight list; every mailbox's
  \<^verbatim>\<open>postOfficeMessages\<close> points to this same list. \<open>network\<close> are the packets handed to
  the device, oldest first; \<open>timers\<close> counts the \<^verbatim>\<open>TimeOutHandler\<close> callbacks scheduled
  with \<^verbatim>\<open>interrupt->Schedule\<close> and not yet fired.
\<close>

record PostOffice =
  netAddr :: int
  boxes :: "Mail list list"
  sentMessages :: "Mail list"
  network :: "packet list"
  timers :: nat

definition numBoxes :: "PostOffice \<Rightarrow> int" where
  "numBoxes po = int (length (boxes po))"

text \<open>
  How a call ends: it returns a value and the new state; the calling thread is suspended
  in \<^verbatim>\<open>SynchList::Remove\<close> on an empty mailbox (\<open>Waiting\<close>, with the state at that moment);
  the machine is halted by \<^verbatim>\<open>interrupt->Halt()\<close>; or the process dies.
\<close>

datatype 'a outcome =
  Returns 'a PostOffice
| Waiting PostOffice
| Halted PostOffice
| Fatal fault

subsubsection \<open>C strings and byte copies\<close>

text \<open>
  A \<^verbatim>\<open>char *\<close> is the list of bytes readable at the pointer. The C string it holds ends
  at the first NUL; the end of the list counts as a terminator too.
\<close>

definition NUL :: char where
  "NUL = CHR 0x00"

definition cstring :: "string \<Rightarrow> string" where
  "cstring s = takeWhile (\<lambda>c. c \<noteq> NUL) s"

definition strlen :: "string \<Rightarrow> nat" where
  "strlen s = length (cstring s)"

text \<open>\<^verbatim>\<open>strncpy(dst, src, n)\<close>: the string, cut at \<open>n\<close> bytes or padded with NUL to \<open>n\<close> bytes.\<close>

definition strncpy :: "string \<Rightarrow> nat \<Rightarrow> string" where
  "strncpy src n = take n (cstring src @ replicate n NUL)"

text \<open>
  \<^verbatim>\<open>strcat(dst, src)\<close>: the string in \<open>dst\<close>, the string in \<open>src\<close>, and the terminator. The
  capacity of \<open>dst\<close> is the caller's business and is not modelled.
\<close>

definition strcat :: "string \<Rightarrow> string \<Rightarrow> string" where
  "strcat dst src = cstring dst @ cstring src @ [NUL]"

text \<open>\<^verbatim>\<open>bcopy(src, dst, n)\<close>: the first \<open>n\<close> bytes of \<open>dst\<close> are replaced by those of \<open>src\<close>.\<close>

definition bcopy :: "string \<Rightarrow> string \<Rightarrow> nat \<Rightarrow> string" where
  "bcopy src dst n = take n src @ drop n dst"

text \<open>
  Modelled from the spec: \<^verbatim>\<open>divRoundUp\<close> is a macro of \<^verbatim>\<open>utility.h\<close>, which is not among
  the sources; the spec asks for the ceiling of the quotient.
\<close>

definition divRoundUp :: "nat \<Rightarrow> nat \<Rightarrow> nat" where
  "divRoundUp n s = n div s + (if n mod s > 0 then 1 else 0)"

subsubsection \<open>Mail and MailBox\<close>

text \<open>
  \<^verbatim>\<open>Mail::Mail\<close>: asserts the length, stores the headers, and copies \<^verbatim>\<open>mailHdr.length\<close>
  bytes when \<^verbatim>\<open>msgData\<close> is not \<^verbatim>\<open>NULL\<close>. The constructor leaves \<^verbatim>\<open>remainingParts\<close> and
  \<^verbatim>\<open>attempts\<close> unset; they are 0 here and are never read before being assigned.
\<close>

definition Mail_new :: "Config \<Rightarrow> PacketHeader \<Rightarrow> MailHeader \<Rightarrow> string option \<Rightarrow> fault + Mail" where
  "Mail_new cfg pktH mailH msgData =
     (if \<not> m_length mailH \<le> MaxMailSize cfg then Inl AssertionFailed
      else Inr \<lparr>pktHdr = pktH, mailHdr = mailH,
                data = (case msgData of None \<Rightarrow> [] | Some d \<Rightarrow> bcopy d [] (m_length mailH)),
                remainingParts = 0, attempts = 0\<rparr>)"

text \<open>
  Modelled from the spec: \<^verbatim>\<open>synchlist.cc\<close> is not among the sources. A \<^verbatim>\<open>SynchList\<close> is the
  blocking FIFO queue over a \<^verbatim>\<open>List\<close>; it is represented by the sequence of items of
  that list, oldest first. \<^verbatim>\<open>Append\<close> adds at the tail, \<^verbatim>\<open>Remove\<close> waits while the list is
  empty (\<open>None\<close>) and otherwise takes the head, \<^verbatim>\<open>isEmpty\<close> and \<^verbatim>\<open>GetFirst\<close> hand over to the
  list, so \<^verbatim>\<open>GetFirst\<close> on an empty list reads through \<^verbatim>\<open>NULL\<close>.
\<close>

definition SynchList_Append :: "'a list \<Rightarrow> 'a \<Rightarrow> 'a list" where
  "SynchList_Append q x = q @ [x]"

definition SynchList_Remove :: "'a list \<Rightarrow> ('a \<times> 'a list) option" where
  "SynchList_Remove q = (case q of [] \<Rightarrow> None | x # r \<Rightarrow> Some (x, r))"

definition SynchList_isEmpty :: "'a list \<Rightarrow> bool" where
  "SynchList_isEmpty q = (q = [])"

definition SynchList_GetFirst :: "'a list \<Rightarrow> fault + 'a" where
  "SynchList_GetFirst q = (case q of [] \<Rightarrow> Inl NullDereference | x # r \<Rightarrow> Inr x)"

text \<open>\<^verbatim>\<open>boxes[box].Put(pktHdr, mailHdr, data)\<close>: build the mail and append it to the queue.\<close>

definition Put :: "Config \<Rightarrow> PostOffice \<Rightarrow> nat \<Rightarrow> PacketHeader \<Rightarrow> MailHeader \<Rightarrow> string \<Rightarrow> unit outcome" where
  "Put cfg po box pktH mailH d =
     (case Mail_new cfg pktH mailH (Some d) of
        Inl f \<Rightarrow> Fatal f
      | Inr mail \<Rightarrow>
          Returns () (po\<lparr>boxes := (boxes po)[box := SynchList_Append (boxes po ! box) mail]\<rparr>))"

text \<open>
  \<^verbatim>\<open>boxes[box].Get(&pktHdr, &mailHdr, data)\<close>: remove the oldest message (waiting if there
  is none), then look at the first in-flight mail and remove it when its \<^verbatim>\<open>mailHdr.from\<close>
  equals the received \<^verbatim>\<open>mailHdr.to\<close>. The value returned is the two headers and the
  \<^verbatim>\<open>mailHdr.length\<close> bytes copied into the caller's buffer.
\<close>

definition Get :: "PostOffice \<Rightarrow> nat \<Rightarrow> (PacketHeader \<times> MailHeader \<times> string) outcome" where
  "Get po box =
     (case SynchList_Remove (boxes po ! box) of
        None \<Rightarrow> Waiting po
      | Some (mail, rest) \<Rightarrow>
          (let po1 = po\<lparr>boxes := (boxes po)[box := rest]\<rparr>
           in case SynchList_GetFirst (sentMessages po1) of
                Inl f \<Rightarrow> Fatal f
              | Inr sentMessage \<Rightarrow>
                  (let po2 = (if m_from (mailHdr sentMessage) = m_to (mailHdr mail)
                              then (case SynchList_Remove (sentMessages po1) of
                                      None \<Rightarrow> po1
                                    | Some (_, r) \<Rightarrow> po1\<lparr>sentMessages := r\<rparr>)
                              else po1)
                   in Returns (pktHdr mail, mailHdr mail,
                               take (m_length (mailHdr mail)) (data mail)) po2)))"

subsubsection \<open>The dispatcher and the unreliable path\<close>

text \<open>
  One round of the loop of \<^verbatim>\<open>PostOffice::PostalDelivery\<close>, for the packet that
  \<^verbatim>\<open>network->Receive\<close> yields: both assertions, then \<^verbatim>\<open>Put\<close> into the addressed box.
\<close>

definition PostalDelivery :: "Config \<Rightarrow> PostOffice \<Rightarrow> packet \<Rightarrow> unit outcome" where
  "PostalDelivery cfg po pk =
     (case pk of (pktH, mailH, payload) \<Rightarrow>
        if \<not> (0 \<le> m_to mailH \<and> m_to mailH < numBoxes po) then Fatal AssertionFailed
        else if \<not> m_length mailH \<le> MaxMailSize cfg then Fatal AssertionFailed
        else Put cfg po (nat (m_to mailH)) pktH mailH payload)"

text \<open>
  \<^verbatim>\<open>PostOffice::Send\<close>: both assertions, then the route header gets this machine's address
  and the total length, and the buffer (header, then \<^verbatim>\<open>mailHdr.length\<close> bytes of data) is
  handed to the device. The device always signals that the send completed, so the call
  returns.
\<close>

definition Send :: "Config \<Rightarrow> PostOffice \<Rightarrow> PacketHeader \<Rightarrow> MailHeader \<Rightarrow> string \<Rightarrow> unit outcome" where
  "Send cfg po pktH mailH d =
     (if \<not> m_length mailH \<le> MaxMailSize cfg then Fatal AssertionFailed
      else if \<not> (0 \<le> m_to mailH \<and> m_to mailH < numBoxes po) then Fatal AssertionFailed
      else (let pktH1 = pktH\<lparr>p_from := netAddr po\<rparr>;
                pktH2 = pktH1\<lparr>p_length := m_length mailH + sizeofMailHeader cfg\<rparr>;
                buffer = (mailH, bcopy d [] (m_length mailH))
            in Returns () (po\<lparr>network := network po @ [(pktH2, buffer)]\<rparr>)))"

text \<open>\<^verbatim>\<open>PostOffice::Receive\<close>: the box is asserted to exist, and the length is asserted after.\<close>

definition Receive :: "Config \<Rightarrow> PostOffice \<Rightarrow> int \<Rightarrow> (PacketHeader \<times> MailHeader \<times> string) outcome" where
  "Receive cfg po box =
     (if \<not> (box \<ge> 0 \<and> box < numBoxes po) then Fatal AssertionFailed
      else (case Get po (nat box) of
              Returns (pktH, mailH, d) po' \<Rightarrow>
                (if m_length mailH \<le> MaxMailSize cfg then Returns (pktH, mailH, d) po'
                 else Fatal AssertionFailed)
            | other \<Rightarrow> other))"

subsubsection \<open>The reliable path\<close>

text \<open>
  \<^verbatim>\<open>PostOffice::FindMail\<close>: the first in-flight mail when the in-flight list is not
  empty, \<^verbatim>\<open>NULL\<close> otherwise. The argument is not looked at.
\<close>

definition FindMail :: "PostOffice \<Rightarrow> Mail \<Rightarrow> fault + Mail option" where
  "FindMail po mail =
     (if \<not> SynchList_isEmpty (sentMessages po)
      then (case SynchList_GetFirst (sentMessages po) of
              Inl f \<Rightarrow> Inl f
            | Inr m \<Rightarrow> Inr (Some m))
      else Inr None)"

text \<open>
  The loop of the first branch of \<^verbatim>\<open>PostOffice::ReliableSend\<close>, from index \<open>i\<close> on: the
  chunk is \<^verbatim>\<open>MaxMailSize - 1\<close> bytes of data from offset \<^verbatim>\<open>i * (MaxMailSize - 1)\<close> with
  a NUL after them, \<^verbatim>\<open>mailHdr.length\<close> becomes \<^verbatim>\<open>MaxMailSize\<close>, and the new mail gets
  the chunk, the current \<^verbatim>\<open>remainingParts\<close> (then decremented) and \<^verbatim>\<open>attempts = 0\<close>, and is
  appended to the in-flight list.
\<close>

function fragment ::
  "Config \<Rightarrow> PostOffice \<Rightarrow> PacketHeader \<Rightarrow> MailHeader \<Rightarrow> string \<Rightarrow> nat \<Rightarrow> nat \<Rightarrow> int \<Rightarrow>
   fault + PostOffice" where
  "fragment cfg po pktH mailH d i pieces rem =
     (if i < pieces then
        (let chunk = take (MaxMailSize cfg - 1) (drop (i * (MaxMailSize cfg - 1)) d) @ [NUL];
             mailH1 = mailH\<lparr>m_length := MaxMailSize cfg\<rparr>
         in case Mail_new cfg pktH mailH1 None of
              Inl f \<Rightarrow> Inl f
            | Inr mail \<Rightarrow>
                (let mail1 = mail\<lparr>data := strncpy chunk (MaxMailSize cfg)\<rparr>;
                     mail2 = mail1\<lparr>remainingParts := rem\<rparr>;
                     mail3 = mail2\<lparr>attempts := 0\<rparr>;
                     po1 = po\<lparr>sentMessages := SynchList_Append (sentMessages po) mail3\<rparr>
                 in fragment cfg po1 pktH mailH1 d (Suc i) pieces (rem - 1)))
      else Inr po)"
  by pat_completeness auto
termination
  by (relation "measure (\<lambda>(cfg, po, pktH, mailH, d, i, pieces, rem). pieces - i)") auto

text \<open>
  The block "Only add it once" of the second branch: with no in-flight mail the backup
  gets \<^verbatim>\<open>attempts = 1\<close> and is appended; otherwise the mail found has its \<^verbatim>\<open>attempts\<close>
  incremented in place (it is the head of the in-flight list) unless they exceed
  \<^verbatim>\<open>MAXREEMISSIONS\<close>, which is the network error, and takes the place of the backup.
\<close>

definition backup :: "Config \<Rightarrow> PostOffice \<Rightarrow> Mail \<Rightarrow> fault + (Mail \<times> PostOffice)" where
  "backup cfg po mail =
     (case FindMail po mail of
        Inl f \<Rightarrow> Inl f
      | Inr None \<Rightarrow>
          (let mail1 = mail\<lparr>attempts := 1\<rparr>
           in Inr (mail1, po\<lparr>sentMessages := SynchList_Append (sentMessages po) mail1\<rparr>))
      | Inr (Some sentMail) \<Rightarrow>
          (if attempts sentMail \<le> int (MAXREEMISSIONS cfg)
           then (let sentMail1 = sentMail\<lparr>attempts := attempts sentMail + 1\<rparr>
                 in Inr (sentMail1, po\<lparr>sentMessages := sentMail1 # tl (sentMessages po)\<rparr>))
           else Inl NetworkError))"

text \<open>
  The second branch of \<^verbatim>\<open>PostOffice::ReliableSend\<close>: back the message up, copy the
  backup's \<^verbatim>\<open>remainingParts\<close> into the header, \<^verbatim>\<open>Send\<close>, schedule the timeout handler,
  and \<^verbatim>\<open>Receive\<close> on box 1.
\<close>

definition ReliableSend_small ::
  "Config \<Rightarrow> PostOffice \<Rightarrow> PacketHeader \<Rightarrow> MailHeader \<Rightarrow> string \<Rightarrow> unit outcome" where
  "ReliableSend_small cfg po pktH mailH d =
     (case Mail_new cfg pktH mailH None of
        Inl f \<Rightarrow> Fatal f
      | Inr mail0 \<Rightarrow>
          (let mail1 = mail0\<lparr>remainingParts := 0\<rparr>;
               mail2 = mail1\<lparr>data := strncpy d (MaxMailSize cfg)\<rparr>
           in case backup cfg po mail2 of
                Inl f \<Rightarrow> Fatal f
              | Inr (mail, po1) \<Rightarrow>
                  (let mailH1 = mailH\<lparr>m_remainingParts := remainingParts mail\<rparr>
                   in case Send cfg po1 pktH mailH1 d of
                        Returns u po2 \<Rightarrow>
                          (let po3 = po2\<lparr>timers := Suc (timers po2)\<rparr>
                           in case Receive cfg po3 1 of
                                Returns r po4 \<Rightarrow> Returns () po4
                              | Waiting p \<Rightarrow> Waiting p
                              | Halted p \<Rightarrow> Halted p
                              | Fatal f \<Rightarrow> Fatal f)
                      | Waiting p \<Rightarrow> Waiting p
                      | Halted p \<Rightarrow> Halted p
                      | Fatal f \<Rightarrow> Fatal f)))"

text \<open>
  \<^verbatim>\<open>PostOffice::ReliableSend\<close> and \<^verbatim>\<open>TimeOutHandler\<close> call each other. A string longer
  than \<^verbatim>\<open>MaxMailSize\<close> is cut into \<^verbatim>\<open>divRoundUp(strlen(data), MaxMailSize - 1)\<close> pieces and
  the handler is called; with \<^verbatim>\<open>MaxMailSize\<close> below 2 the divisor is not positive. The
  handler resends the first in-flight mail, or halts the machine when there is none. It
  passes the array \<^verbatim>\<open>mail->data\<close>, which has \<^verbatim>\<open>MaxMailSize\<close> bytes, and \<^verbatim>\<open>ReliableSend\<close>
  starts with \<^verbatim>\<open>strlen\<close> of it. When no NUL is among the bytes of the array (as after
  \<^verbatim>\<open>strncpy\<close> of a string of \<^verbatim>\<open>MaxMailSize\<close> characters or more), that \<^verbatim>\<open>strlen\<close> reads past
  the end of the array: a fault, and nothing is resent.
\<close>

function ReliableSend ::
    "Config \<Rightarrow> PostOffice \<Rightarrow> PacketHeader \<Rightarrow> MailHeader \<Rightarrow> string \<Rightarrow> unit outcome"
  and TimeOutHandler :: "Config \<Rightarrow> PostOffice \<Rightarrow> unit outcome" where
  "ReliableSend cfg po pktH mailH d =
     (if strlen d > MaxMailSize cfg then
        (if MaxMailSize cfg \<le> 1 then Fatal BadArithmetic
         else (let pieces = divRoundUp (strlen d) (MaxMailSize cfg - 1);
                   remaining = int pieces - 1
               in case fragment cfg po pktH mailH d 0 pieces remaining of
                    Inl f \<Rightarrow> Fatal f
                  | Inr po1 \<Rightarrow> TimeOutHandler cfg po1))
      else ReliableSend_small cfg po pktH mailH d)"
| "TimeOutHandler cfg po =
     (if \<not> SynchList_isEmpty (sentMessages po)
      then (case SynchList_GetFirst (sentMessages po) of
              Inl f \<Rightarrow> Fatal f
            | Inr mail \<Rightarrow>
                (if NUL \<in> set (take (MaxMailSize cfg) (data mail))
                 then ReliableSend cfg po (pktHdr mail) (mailHdr mail)
                        (take (MaxMailSize cfg) (data mail))
                 else Fatal BufferOverrun))
      else Halted po)"
  by pat_completeness auto
termination
proof (relation "measure (\<lambda>x. case x of
          Inl (cfg, po, pktH, mailH, d) \<Rightarrow> (if strlen d > MaxMailSize cfg then 2 else 0)
        | Inr (cfg, po) \<Rightarrow> 1)")
  show "wf (measure (\<lambda>x. case x of
          Inl (cfg, po, pktH, mailH, d) \<Rightarrow> (if strlen d > MaxMailSize cfg then 2 else 0 :: nat)
        | Inr (cfg, po) \<Rightarrow> 1))"
    by simp
next
  fix cfg :: Config and po po1 :: PostOffice and pktH :: PacketHeader
    and mailH :: MailHeader and d :: string and x xa
  assume "MaxMailSize cfg < strlen d"
  then show "(Inr (cfg, po1), Inl (cfg, po, pktH, mailH, d))
        \<in> measure (\<lambda>x. case x of
          Inl (cfg, po, pktH, mailH, d) \<Rightarrow> (if strlen d > MaxMailSize cfg then 2 else 0)
        | Inr (cfg, po) \<Rightarrow> 1)"
    by simp
next
  fix cfg :: Config and po :: PostOffice and mail :: Mail
  have "length (takeWhile (\<lambda>c. c \<noteq> NUL) (take (MaxMailSize cfg) (data mail)))
          \<le> length (take (MaxMailSize cfg) (data mail))"
    by (rule length_takeWhile_le)
  then have "strlen (take (MaxMailSize cfg) (data mail)) \<le> MaxMailSize cfg"
    by (simp add: strlen_def cstring_def)
  then show "(Inl (cfg, po, pktHdr mail, mailHdr mail, take (MaxMailSize cfg) (data mail)),
         Inr (cfg, po))
        \<in> measure (\<lambda>x. case x of
          Inl (cfg, po, pktH, mailH, d) \<Rightarrow> (if strlen d > MaxMailSize cfg then 2 else 0)
        | Inr (cfg, po) \<Rightarrow> 1)"
    by simp
qed

text \<open>
  \<^verbatim>\<open>PostOffice::ReliableReceive\<close>: \<^verbatim>\<open>Get\<close> from the box into \<^verbatim>\<open>data\<close>, \<^verbatim>\<open>strcat\<close> it
  to \<^verbatim>\<open>bigBuffer\<close>, \<^verbatim>\<open>Send\<close> the acknowledgement "Got it!" to the mailbox the message
  came from, and receive again while the header says that parts remain. The length
  assertion at the end reads the header last written through \<^verbatim>\<open>mailHdr\<close>. The value is
  the final content of the four out-parameters. The acknowledgement swaps source and
  destination of both headers; the code leaves \<^verbatim>\<open>outPktHdr.length\<close> unset (0 here) and
  \<^verbatim>\<open>Send\<close> overwrites it.
\<close>

definition ack :: string where
  "ack = ''Got it!'' @ [NUL]"

definition ackHeaders :: "PacketHeader \<Rightarrow> MailHeader \<Rightarrow> PacketHeader \<times> MailHeader" where
  "ackHeaders pktH mailH =
     (\<lparr>p_to = p_from pktH, p_from = p_to pktH, p_length = 0\<rparr>,
      \<lparr>m_to = m_from mailH, m_from = m_to mailH, m_length = strlen ack + 1,
       m_remainingParts = 0\<rparr>)"

function ReliableReceive ::
  "Config \<Rightarrow> PostOffice \<Rightarrow> int \<Rightarrow> string \<Rightarrow> string \<Rightarrow>
   (PacketHeader \<times> MailHeader \<times> string \<times> string) outcome" where
  "ReliableReceive cfg po box buf bigBuffer =
     (if \<not> (box \<ge> 0 \<and> box < numBoxes po) then Fatal AssertionFailed
      else (case Get po (nat box) of
              Waiting p \<Rightarrow> Waiting p
            | Halted p \<Rightarrow> Halted p
            | Fatal f \<Rightarrow> Fatal f
            | Returns got po1 \<Rightarrow>
                (let pktH = fst got; mailH = fst (snd got);
                     buf1 = snd (snd got) @ drop (m_length mailH) buf;
                     bigBuffer1 = strcat bigBuffer buf1
                 in case Send cfg po1 (fst (ackHeaders pktH mailH))
                           (snd (ackHeaders pktH mailH)) ack of
                      Waiting p \<Rightarrow> Waiting p
                    | Halted p \<Rightarrow> Halted p
                    | Fatal f \<Rightarrow> Fatal f
                    | Returns u po2 \<Rightarrow>
                        (if m_remainingParts mailH > 0
                         then (case ReliableReceive cfg po2 box buf1 bigBuffer1 of
                                 Returns r po3 \<Rightarrow>
                                   (if m_length (fst (snd r)) \<le> MaxMailSize cfg
                                    then Returns r po3 else Fatal AssertionFailed)
                               | other \<Rightarrow> other)
                         else (if m_length mailH \<le> MaxMailSize cfg
                               then Returns (pktH, mailH, buf1, bigBuffer1) po2
                               else Fatal AssertionFailed)))))"
  by pat_completeness auto
termination
proof (relation "measure (\<lambda>(cfg, po, box, buf, bigBuffer). length (boxes po ! nat box))")
  show "wf (measure (\<lambda>(cfg, po, box, buf, bigBuffer). length (boxes po ! nat box)))"
    by simp
next
  fix cfg :: Config and po po1 po2 :: PostOffice and box :: int and buf bigBuffer :: string
    and got :: "PacketHeader \<times> MailHeader \<times> string" and pktH mailH buf1 bigBuffer1 and u :: unit
  assume rng: "\<not> \<not> (0 \<le> box \<and> box < numBoxes po)"
    and g: "Get po (nat box) = Returns got po1"
    and s: "Send cfg po1 (fst (ackHeaders pktH mailH)) (snd (ackHeaders pktH mailH)) ack
              = Returns u po2"
  from rng have lt: "nat box < length (boxes po)"
    unfolding numBoxes_def by linarith
  from s have b2: "boxes po2 = boxes po1"
    by (auto simp: Send_def Let_def split: if_splits)
  from g lt have "length (boxes po1 ! nat box) < length (boxes po ! nat box)"
    by (auto simp: Get_def Let_def SynchList_Remove_def SynchList_GetFirst_def
             split: list.splits if_splits sum.splits)
  with b2 show "((cfg, po2, box, buf1, bigBuffer1), cfg, po, box, buf, bigBuffer)
        \<in> measure (\<lambda>(cfg, po, box, buf, bigBuffer). length (boxes po ! nat box))"
    by simp
qed

subsection \<open>Scenarios and closed forms\<close>

text \<open>
  A scheduled \<^verbatim>\<open>TimeOutHandler\<close> callback fires while the sender is still suspended in its
  \<^verbatim>\<open>Receive\<close>: nothing has arrived for it, as when every transmission was dropped.
\<close>

definition timer_fires :: "Config \<Rightarrow> unit outcome \<Rightarrow> unit outcome" where
  "timer_fires cfg r =
     (case r of
        Waiting po \<Rightarrow>
          (if timers po = 0 then Waiting po
           else TimeOutHandler cfg (po\<lparr>timers := timers po - 1\<rparr>))
      | other \<Rightarrow> other)"

text \<open>The callback fires \<open>n\<close> times in a row.\<close>

fun timer_fires_n :: "Config \<Rightarrow> nat \<Rightarrow> unit outcome \<Rightarrow> unit outcome" where
  "timer_fires_n cfg 0 r = r"
| "timer_fires_n cfg (Suc n) r = timer_fires cfg (timer_fires_n cfg n r)"

text \<open>
  A producer \<^verbatim>\<open>Put\<close>s a sequence of messages into one box; a consumer calls \<^verbatim>\<open>Get\<close> on
  that box \<open>n\<close> times and collects what each call returns.
\<close>

fun Put_all :: "Config \<Rightarrow> PostOffice \<Rightarrow> nat \<Rightarrow> packet list \<Rightarrow> unit outcome" where
  "Put_all cfg po box [] = Returns () po"
| "Put_all cfg po box (pk # pks) =
     (case Put cfg po box (fst pk) (fst (snd pk)) (snd (snd pk)) of
        Returns u po1 \<Rightarrow> Put_all cfg po1 box pks
      | other \<Rightarrow> other)"

fun Get_n :: "PostOffice \<Rightarrow> nat \<Rightarrow> nat \<Rightarrow> packet list outcome" where
  "Get_n po box 0 = Returns [] po"
| "Get_n po box (Suc n) =
     (case Get po box of
        Returns x po1 \<Rightarrow>
          (case Get_n po1 box n of
             Returns xs po2 \<Rightarrow> Returns (x # xs) po2
           | Waiting p \<Rightarrow> Waiting p
           | Halted p \<Rightarrow> Halted p
           | Fatal f \<Rightarrow> Fatal f)
      | Waiting p \<Rightarrow> Waiting p
      | Halted p \<Rightarrow> Halted p
      | Fatal f \<Rightarrow> Fatal f)"

text \<open>The mail that \<^verbatim>\<open>Put\<close> builds from the headers and payload of a packet.\<close>

definition as_mail :: "packet \<Rightarrow> Mail" where
  "as_mail pk = \<lparr>pktHdr = fst pk, mailHdr = fst (snd pk),
      data = take (m_length (fst (snd pk))) (snd (snd pk)), remainingParts = 0, attempts = 0\<rparr>"

text \<open>
  Closed forms of what the fragmentation loop computes: the number of pieces, the bytes
  of piece \<open>i\<close>, and the in-flight mail made for piece \<open>i\<close> (the counter starts at
  \<^verbatim>\<open>pieces - 1\<close> and is decremented once per round).
\<close>

definition pieces :: "Config \<Rightarrow> string \<Rightarrow> nat" where
  "pieces cfg d = divRoundUp (strlen d) (MaxMailSize cfg - 1)"

definition piece :: "Config \<Rightarrow> string \<Rightarrow> nat \<Rightarrow> string" where
  "piece cfg d i =
     strncpy (take (MaxMailSize cfg - 1) (drop (i * (MaxMailSize cfg - 1)) d) @ [NUL])
       (MaxMailSize cfg)"

definition chunk_mail :: "Config \<Rightarrow> PacketHeader \<Rightarrow> MailHeader \<Rightarrow> string \<Rightarrow> nat \<Rightarrow> Mail" where
  "chunk_mail cfg pktH mailH d i =
     \<lparr>pktHdr = pktH, mailHdr = mailH\<lparr>m_length := MaxMailSize cfg\<rparr>, data = piece cfg d i,
      remainingParts = int (pieces cfg d) - 1 - int i, attempts = 0\<rparr>"

text \<open>
  What \<^verbatim>\<open>Send\<close> hands to the device when \<^verbatim>\<open>TimeOutHandler\<close> resends the in-flight mail
  \<open>e\<close> from the machine with address \<open>addr\<close>.
\<close>

definition on_the_wire :: "Config \<Rightarrow> int \<Rightarrow> Mail \<Rightarrow> packet" where
  "on_the_wire cfg addr e =
     ((pktHdr e)\<lparr>p_from := addr, p_length := m_length (mailHdr e) + sizeofMailHeader cfg\<rparr>,
      (mailHdr e)\<lparr>m_remainingParts := remainingParts e\<rparr>,
      take (m_length (mailHdr e)) (take (MaxMailSize cfg) (data e)))"

text \<open>The dispatcher handles a sequence of arriving packets, one round each.\<close>

fun deliver_all :: "Config \<Rightarrow> PostOffice \<Rightarrow> packet list \<Rightarrow> unit outcome" where
  "deliver_all cfg po [] = Returns () po"
| "deliver_all cfg po (pk # pks) =
     (case PostalDelivery cfg po pk of
        Returns u po1 \<Rightarrow> deliver_all cfg po1 pks
      | other \<Rightarrow> other)"

subsection \<open>Concrete post offices\<close>

text \<open>
  A configuration with \<^verbatim>\<open>MaxMailSize = 10\<close> and retry ceiling 2, a post office with four
  empty mailboxes, and states derived from it.
\<close>

definition cfg10 :: Config where
  "cfg10 = \<lparr>MaxMailSize = 10, MAXREEMISSIONS = 2, sizeofMailHeader = 16\<rparr>"

definition route01 :: PacketHeader where
  "route01 = \<lparr>p_to = 1, p_from = 0, p_length = 0\<rparr>"

definition header :: "int \<Rightarrow> int \<Rightarrow> nat \<Rightarrow> MailHeader" where
  "header dst src n = \<lparr>m_to = dst, m_from = src, m_length = n, m_remainingParts = 0\<rparr>"

definition office4 :: PostOffice where
  "office4 = \<lparr>netAddr = 0, boxes = [[], [], [], []], sentMessages = [], network = [], timers = 0\<rparr>"

definition letter :: "int \<Rightarrow> int \<Rightarrow> string \<Rightarrow> Mail" where
  "letter dst src s = \<lparr>pktHdr = route01, mailHdr = header dst src (length s), data = s,
     remainingParts = 0, attempts = 1\<rparr>"

definition office_reply :: PostOffice where
  "office_reply = office4\<lparr>boxes := [[], [letter 1 5 ''ok''], [], []],
     sentMessages := [letter 0 1 ''ping'']\<rparr>"

definition office_hello :: PostOffice where
  "office_hello = office4\<lparr>boxes := [[], [], [letter 2 0 ''HELLO''], []]\<rparr>"

definition office_busy :: PostOffice where
  "office_busy = office4\<lparr>sentMessages := [letter 2 1 ''ping'']\<rparr>"

text \<open>
  The backup that \<^verbatim>\<open>ReliableSend\<close> keeps of the string \<open>s\<close> sent with its terminator: the
  \<^verbatim>\<open>MaxMailSize\<close> bytes that \<^verbatim>\<open>strncpy\<close> writes, and \<^verbatim>\<open>attempts = 1\<close>. Then a post office
  with such a backup in flight, one where that backup has been transmitted three times,
  and the sender of the ten characters of \<open>ten\<close> below, whose backup has no terminator.
\<close>

definition backup_of :: "int \<Rightarrow> int \<Rightarrow> string \<Rightarrow> Mail" where
  "backup_of dst src s = \<lparr>pktHdr = route01, mailHdr = header dst src (Suc (length s)),
     data = strncpy (s @ [NUL]) (MaxMailSize cfg10), remainingParts = 0, attempts = 1\<rparr>"

definition office_pending :: PostOffice where
  "office_pending = office4\<lparr>sentMessages := [backup_of 2 1 ''ping'']\<rparr>"

definition office_worn :: PostOffice where
  "office_worn = office4\<lparr>sentMessages := [(backup_of 2 1 ''ping'')\<lparr>attempts := 3\<rparr>]\<rparr>"

definition office_unterminated :: PostOffice where
  "office_unterminated = office4\<lparr>sentMessages := [\<lparr>pktHdr = route01, mailHdr = header 2 1 10,
        data = ''0123456789'', remainingParts = 0, attempts = 1\<rparr>],
     network := [(\<lparr>p_to = 1, p_from = 0, p_length = 26\<rparr>, header 2 1 10, ''0123456789'')],
     timers := 1\<rparr>"

text \<open>
  A string of exactly \<^verbatim>\<open>MaxMailSize\<close> characters and one of 25 characters, each with its
  terminator.
\<close>

definition ten :: string where
  "ten = ''0123456789'' @ [NUL]"

definition twentyfive :: string where
  "twentyfive = ''abcdefghijklmnopqrstuvwxy'' @ [NUL]"

section \<open>Properties\<close>

declare ReliableSend.simps [simp del] TimeOutHandler.simps [simp del] fragment.simps [simp del]
  ReliableReceive.simps [simp del]

subsection \<open>The linked list is a queue\<close>

text \<open>
  On a well-formed list the operations of \<^verbatim>\<open>list.cc\<close> act on the sequence of items:
  \<^verbatim>\<open>Append\<close> adds at the end, \<^verbatim>\<open>Remove\<close> takes the first, \<^verbatim>\<open>GetFirst\<close> reads the first and
  faults when there is none. This is what the queues of the post office model stand for.
\<close>

lemma chain_store_other:
  "a \<notin> fst ` set ns \<Longrightarrow> chain (h(a := v)) ns p = chain h ns p"
  by (induction ns arbitrary: p) (auto split: option.splits)

lemma chain_link_last:
  assumes "chain h ns p" and "distinct (map fst ns)" and "ns \<noteq> []"
    and "a \<notin> fst ` set ns" and "h (fst (last ns)) = Some e"
  shows "chain (h(a \<mapsto> \<lparr>item = x, key = 0, nxt = None\<rparr>,
                  fst (last ns) \<mapsto> e\<lparr>nxt := Some a\<rparr>))
           (ns @ [(a, x)]) p"
  using assms
proof (induction ns arbitrary: p)
  case Nil
  then show ?case by simp
next
  case (Cons n ns)
  obtain b y where n: "n = (b, y)" by (cases n)
  show ?case
  proof (cases "ns = []")
    case True
    with Cons.prems n show ?thesis
      by (auto split: option.splits)
  next
    case False
    from Cons.prems n obtain eb where eb: "p = Some b" "h b = Some eb" "item eb = y"
      "chain h ns (nxt eb)"
      by (auto split: option.splits)
    from False have lin: "fst (last ns) \<in> fst ` set ns"
      by simp
    with Cons.prems(2) n have bl: "b \<noteq> fst (last ns)"
      by auto
    from Cons.prems(4) n have ba: "b \<noteq> a"
      by auto
    have "chain (h(a \<mapsto> \<lparr>item = x, key = 0, nxt = None\<rparr>,
                  fst (last ns) \<mapsto> e\<lparr>nxt := Some a\<rparr>)) (ns @ [(a, x)]) (nxt eb)"
      using Cons.prems False eb(4) n by (intro Cons.IH) auto
    moreover have "(h(a \<mapsto> \<lparr>item = x, key = 0, nxt = None\<rparr>,
                  fst (last ns) \<mapsto> e\<lparr>nxt := Some a\<rparr>)) b = Some eb"
      using eb(2) bl ba by simp
    moreover have "last (n # ns) = last ns"
      using False by simp
    ultimately show ?thesis
      using eb(1,3) n by (simp only: append_Cons chain.simps option.case simp_thms)
  qed
qed

lemma chain_last_cell:
  "chain h ns p \<Longrightarrow> ns \<noteq> [] \<Longrightarrow> \<exists>e. h (fst (last ns)) = Some e"
  by (induction h ns p rule: chain.induct) (auto split: option.splits)

lemma List_new_holds: "List_holds List_new []"
  by (simp add: List_holds_def List_new_def)

lemma IsEmpty_holds: "List_holds l ns \<Longrightarrow> IsEmpty l \<longleftrightarrow> ns = []"
  by (cases ns) (auto simp: List_holds_def IsEmpty_def)

lemma GetFirst_holds:
  "List_holds l ns \<Longrightarrow> GetFirst l = SynchList_GetFirst (map snd ns)"
  by (cases ns) (auto simp: List_holds_def GetFirst_def SynchList_GetFirst_def split: option.splits)

lemma Append_holds:
  assumes "List_holds l ns"
  shows "\<exists>l'. Append l x = Inr l' \<and> List_holds l' (ns @ [(brk l, x)])"
proof (cases "ns = []")
  case True
  with assms show ?thesis
    by (simp add: List_holds_def Append_def IsEmpty_def Let_def)
next
  case False
  from assms have c: "chain (cells l) ns (first l)" and d: "distinct (map fst ns)"
    and b: "\<forall>a \<in> set (map fst ns). a < brk l"
    and la: "last_ptr l = Some (fst (last ns))"
    using False by (simp_all add: List_holds_def)
  from False have lin: "fst (last ns) \<in> fst ` set ns" by simp
  with b have ll: "fst (last ns) < brk l" by auto
  from b have fresh: "brk l \<notin> fst ` set ns" by auto
  from c False have ne: "first l \<noteq> None"
    by (cases ns) auto
  have "\<exists>e. cells l (fst (last ns)) = Some e"
    using c False by (rule chain_last_cell)
  then obtain e where e: "cells l (fst (last ns)) = Some e" by blast
  let ?h = "(cells l)(brk l \<mapsto> \<lparr>item = x, key = 0, nxt = None\<rparr>,
                  fst (last ns) \<mapsto> e\<lparr>nxt := Some (brk l)\<rparr>)"
  have ch: "chain ?h (ns @ [(brk l, x)]) (first l)"
    using c d False fresh e by (rule chain_link_last)
  have app: "Append l x = Inr (l\<lparr>cells := ?h, brk := Suc (brk l), last_ptr := Some (brk l)\<rparr>)"
    using ne la e ll by (auto simp: Append_def IsEmpty_def Let_def)
  have "List_holds (l\<lparr>cells := ?h, brk := Suc (brk l), last_ptr := Some (brk l)\<rparr>)
          (ns @ [(brk l, x)])"
    using ch d b fresh by (auto simp: List_holds_def less_Suc_eq)
  with app show ?thesis by blast
qed

lemma Remove_holds:
  assumes "List_holds l (n # ns)"
  shows "\<exists>l'. Remove l = Inr (Some (snd n), l') \<and> List_holds l' ns"
proof -
  obtain a x where n: "n = (a, x)" by (cases n)
  from assms n obtain e where f: "first l = Some a" and e: "cells l a = Some e"
    and it: "item e = x" and c: "chain (cells l) ns (nxt e)"
    by (auto simp: List_holds_def split: option.splits)
  from assms n have d: "a \<notin> fst ` set ns" "distinct (map fst ns)"
    and b: "\<forall>a \<in> set (map fst ns). a < brk l"
    and la: "last_ptr l = Some (fst (last (n # ns)))"
    by (auto simp: List_holds_def)
  show ?thesis
  proof (cases "ns = []")
    case True
    with f e it la n c have "Remove l = Inr (Some x, l\<lparr>first := None, last_ptr := None,
        cells := (cells l)(a := None)\<rparr>)"
      by (simp add: Remove_def SortedRemove_def IsEmpty_def)
    with True n show ?thesis
      by (auto simp: List_holds_def)
  next
    case False
    then have "fst (last ns) \<in> fst ` set ns" by simp
    with d have neq: "a \<noteq> fst (last ns)" by auto
    with f e it la n False have "Remove l = Inr (Some x, l\<lparr>first := nxt e,
        cells := (cells l)(a := None)\<rparr>)"
      by (simp add: Remove_def SortedRemove_def IsEmpty_def)
    moreover have "List_holds (l\<lparr>first := nxt e, cells := (cells l)(a := None)\<rparr>) ns"
      using c d b la False by (simp add: List_holds_def chain_store_other)
    ultimately show ?thesis using n by auto
  qed
qed

lemma Remove_empty: "List_holds l [] \<Longrightarrow> Remove l = Inr (None, l)"
  by (simp add: List_holds_def Remove_def SortedRemove_def IsEmpty_def)

lemma Append_all_holds:
  "List_holds l ns \<Longrightarrow>
   \<exists>l' ns'. Append_all l xs = Inr l' \<and> List_holds l' (ns @ ns') \<and> map snd ns' = xs"
proof (induction xs arbitrary: l ns)
  case Nil
  then show ?case by simp
next
  case (Cons x xs)
  from Append_holds [OF Cons.prems, of x] obtain l1
    where l1: "Append l x = Inr l1" "List_holds l1 (ns @ [(brk l, x)])" by blast
  from Cons.IH [OF l1(2)] obtain l' ns'
    where "Append_all l1 xs = Inr l'" "List_holds l' ((ns @ [(brk l, x)]) @ ns')" "map snd ns' = xs"
    by blast
  with l1(1) have "Append_all l (x # xs) = Inr l' \<and> List_holds l' (ns @ ((brk l, x) # ns')) \<and>
      map snd ((brk l, x) # ns') = x # xs"
    by simp
  then show ?case
    by (intro exI [of _ l'] exI [of _ "(brk l, x) # ns'"])
qed

lemma Remove_n_holds:
  "List_holds l ns \<Longrightarrow>
   \<exists>l'. Remove_n l (length ns) = Inr (map (\<lambda>n. Some (snd n)) ns, l') \<and> List_holds l' []"
proof (induction ns arbitrary: l)
  case Nil
  then show ?case by simp
next
  case (Cons n ns)
  from Remove_holds [OF Cons.prems] obtain l1
    where l1: "Remove l = Inr (Some (snd n), l1)" "List_holds l1 ns" by blast
  from Cons.IH [OF l1(2)] obtain l'
    where "Remove_n l1 (length ns) = Inr (map (\<lambda>n. Some (snd n)) ns, l')" "List_holds l' []"
    by blast
  with l1(1) show ?case by simp
qed

lemma List_fifo:
  assumes "List_holds l []"
  shows "\<exists>l' l''. Append_all l xs = Inr l' \<and>
           Remove_n l' (length xs) = Inr (map Some xs, l'') \<and> IsEmpty l''"
proof -
  from Append_all_holds [OF assms, of xs] obtain l' ns'
    where a: "Append_all l xs = Inr l'" "List_holds l' ns'" "map snd ns' = xs"
    by auto
  from Remove_n_holds [OF a(2)] obtain l''
    where r: "Remove_n l' (length ns') = Inr (map (\<lambda>n. Some (snd n)) ns', l'')" "List_holds l'' []"
    by blast
  from a(3) have "length ns' = length xs" "map (\<lambda>n. Some (snd n)) ns' = map Some xs"
    by auto
  with a(1) r IsEmpty_holds [OF r(2)] show ?thesis by auto
qed

subsection \<open>Mailboxes, the dispatcher and the unreliable path\<close>

lemma Send_ok:
  assumes "m_length mailH \<le> MaxMailSize cfg" "0 \<le> m_to mailH" "m_to mailH < numBoxes po"
  shows "Send cfg po pktH mailH d =
     Returns () (po\<lparr>network := network po @
        [(pktH\<lparr>p_from := netAddr po, p_length := m_length mailH + sizeofMailHeader cfg\<rparr>,
          mailH, take (m_length mailH) d)]\<rparr>)"
  using assms by (simp add: Send_def bcopy_def)

lemma Get_nonempty:
  assumes "boxes po ! box = mail # rest" "sentMessages po = oldest # others"
  shows "Get po box =
     Returns (pktHdr mail, mailHdr mail, take (m_length (mailHdr mail)) (data mail))
       (po\<lparr>boxes := (boxes po)[box := rest],
           sentMessages := (if m_from (mailHdr oldest) = m_to (mailHdr mail)
                            then others else oldest # others)\<rparr>)"
  using assms by (simp add: Get_def SynchList_Remove_def SynchList_GetFirst_def)

lemma Get_waits: "boxes po ! box = [] \<Longrightarrow> Get po box = Waiting po"
  by (simp add: Get_def SynchList_Remove_def)

lemma Get_null: "boxes po ! box = mail # rest \<Longrightarrow> sentMessages po = [] \<Longrightarrow>
   Get po box = Fatal NullDereference"
  by (simp add: Get_def SynchList_Remove_def SynchList_GetFirst_def)

lemma Receive_waits:
  "2 \<le> length (boxes po) \<Longrightarrow> boxes po ! 1 = [] \<Longrightarrow> Receive cfg po 1 = Waiting po"
  by (simp add: Receive_def numBoxes_def Get_waits)

lemma Put_ok:
  "m_length mailH \<le> MaxMailSize cfg \<Longrightarrow>
   Put cfg po box pktH mailH d =
     Returns () (po\<lparr>boxes := (boxes po)[box := boxes po ! box @ [as_mail (pktH, mailH, d)]]\<rparr>)"
  by (simp add: Put_def Mail_new_def bcopy_def SynchList_Append_def as_mail_def)

lemma Put_all_appends:
  "box < length (boxes po) \<Longrightarrow> \<forall>pk \<in> set pks. m_length (fst (snd pk)) \<le> MaxMailSize cfg \<Longrightarrow>
   Put_all cfg po box pks =
     Returns () (po\<lparr>boxes := (boxes po)[box := boxes po ! box @ map as_mail pks]\<rparr>)"
proof (induction pks arbitrary: po)
  case Nil
  then show ?case by simp
next
  case (Cons pk pks)
  let ?po1 = "po\<lparr>boxes := (boxes po)[box := boxes po ! box @ [as_mail pk]]\<rparr>"
  have p: "Put cfg po box (fst pk) (fst (snd pk)) (snd (snd pk)) = Returns () ?po1"
    using Cons.prems(2) by (simp add: Put_ok)
  have "Put_all cfg ?po1 box pks =
     Returns () (?po1\<lparr>boxes := (boxes ?po1)[box := boxes ?po1 ! box @ map as_mail pks]\<rparr>)"
    using Cons.prems by (intro Cons.IH) simp_all
  with p Cons.prems(1) show ?case by simp
qed

lemma Get_n_takes:
  "box < length (boxes po) \<Longrightarrow> boxes po ! box = ms \<Longrightarrow>
   length ms \<le> length (sentMessages po) \<Longrightarrow>
   \<exists>po'. Get_n po box (length ms) =
       Returns (map (\<lambda>m. (pktHdr m, mailHdr m, take (m_length (mailHdr m)) (data m))) ms) po' \<and>
     boxes po' ! box = []"
proof (induction ms arbitrary: po)
  case Nil
  then show ?case by simp
next
  case (Cons m ms)
  from Cons.prems(3) obtain oldest others where s: "sentMessages po = oldest # others"
    by (cases "sentMessages po") auto
  let ?po1 = "po\<lparr>boxes := (boxes po)[box := ms],
           sentMessages := (if m_from (mailHdr oldest) = m_to (mailHdr m)
                            then others else oldest # others)\<rparr>"
  have g: "Get po box =
     Returns (pktHdr m, mailHdr m, take (m_length (mailHdr m)) (data m)) ?po1"
    using Cons.prems(2) s by (rule Get_nonempty)
  have "\<exists>po'. Get_n ?po1 box (length ms) =
       Returns (map (\<lambda>m. (pktHdr m, mailHdr m, take (m_length (mailHdr m)) (data m))) ms) po' \<and>
     boxes po' ! box = []"
    using Cons.prems s by (intro Cons.IH) auto
  then obtain po' where "Get_n ?po1 box (length ms) =
       Returns (map (\<lambda>m. (pktHdr m, mailHdr m, take (m_length (mailHdr m)) (data m))) ms) po'"
     "boxes po' ! box = []"
    by blast
  with g show ?case by simp
qed

lemma PostalDelivery_ok:
  assumes "0 \<le> m_to (fst (snd pk))" and "m_to (fst (snd pk)) < numBoxes po"
    and "m_length (fst (snd pk)) \<le> MaxMailSize cfg"
  shows "PostalDelivery cfg po pk =
     Returns () (po\<lparr>boxes := (boxes po)[nat (m_to (fst (snd pk))) :=
        boxes po ! nat (m_to (fst (snd pk))) @ [as_mail pk]]\<rparr>)"
  using assms by (cases pk) (simp add: PostalDelivery_def Put_ok)

lemma deliver_all_appends:
  "0 \<le> b \<Longrightarrow> b < numBoxes po \<Longrightarrow>
   \<forall>pk \<in> set pks. m_to (fst (snd pk)) = b \<and> m_length (fst (snd pk)) \<le> MaxMailSize cfg \<Longrightarrow>
   deliver_all cfg po pks =
     Returns () (po\<lparr>boxes := (boxes po)[nat b := boxes po ! nat b @ map as_mail pks]\<rparr>)"
proof (induction pks arbitrary: po)
  case Nil
  then show ?case by simp
next
  case (Cons pk pks)
  let ?po1 = "po\<lparr>boxes := (boxes po)[nat b := boxes po ! nat b @ [as_mail pk]]\<rparr>"
  have lt: "nat b < length (boxes po)"
    using Cons.prems(1,2) unfolding numBoxes_def by linarith
  have p: "PostalDelivery cfg po pk = Returns () ?po1"
    using Cons.prems PostalDelivery_ok [of pk po cfg] by simp
  have "deliver_all cfg ?po1 pks =
     Returns () (?po1\<lparr>boxes := (boxes ?po1)[nat b := boxes ?po1 ! nat b @ map as_mail pks]\<rparr>)"
    using Cons.prems by (intro Cons.IH) (simp_all add: numBoxes_def)
  with p lt show ?case by simp
qed

text \<open>
  In-flight mails are never removed by the send path, by \<^verbatim>\<open>Put\<close> or by the dispatcher;
  \<^verbatim>\<open>Get\<close> removes at most the first one, and only when its source is the destination of
  the message received.
\<close>

lemma in_flight_kept:
  "Send cfg po pktH mailH d = Returns u po' \<Longrightarrow> sentMessages po' = sentMessages po"
  "Put cfg po box pktH mailH d = Returns u po' \<Longrightarrow> sentMessages po' = sentMessages po"
  "PostalDelivery cfg po pk = Returns u po' \<Longrightarrow> sentMessages po' = sentMessages po"
  by (auto simp: Send_def Put_def PostalDelivery_def Mail_new_def Let_def
      split: if_splits prod.splits)

lemma in_flight_acknowledged:
  assumes "Get po box = Returns x po'"
  shows "sentMessages po' = sentMessages po \<or>
         (\<exists>e. sentMessages po = e # sentMessages po' \<and>
            m_from (mailHdr e) = m_to (fst (snd x)))"
  using assms
  by (cases "boxes po ! box"; cases "sentMessages po")
     (auto simp: Get_def SynchList_Remove_def SynchList_GetFirst_def Let_def split: if_splits)

text \<open>
  Claim C6. For every call of \<^verbatim>\<open>Send\<close> whose payload length is at most \<^verbatim>\<open>MaxMailSize\<close> and
  whose destination mailbox is in range (the caller's data holding at least
  \<^verbatim>\<open>mailHdr.length\<close> bytes), the buffer handed to the network device is the mailbox
  header followed by exactly \<^verbatim>\<open>mailHdr.length\<close> bytes of the data, and the route header
  handed over has its source set to this machine's address and its length set to
  \<^verbatim>\<open>sizeof(MailHeader) + mailHdr.length\<close>, whatever the caller supplied in these two
  fields.
\<close>

theorem Send_hands_header_then_data:
  assumes "m_length mailH \<le> MaxMailSize cfg" and "0 \<le> m_to mailH"
    and "m_to mailH < numBoxes po" and "m_length mailH \<le> length d"
  shows "Send cfg po pktH mailH d =
           Returns () (po\<lparr>network := network po @
             [(\<lparr>p_to = p_to pktH, p_from = netAddr po,
                p_length = sizeofMailHeader cfg + m_length mailH\<rparr>,
               mailH, take (m_length mailH) d)]\<rparr>) \<and>
         length (take (m_length mailH) d) = m_length mailH \<and>
         Send cfg po (pktH\<lparr>p_from := a, p_length := n\<rparr>) mailH d = Send cfg po pktH mailH d"
  using assms by (simp add: Send_def bcopy_def)

theorem Send_hands_header_then_data_witness:
  "Send cfg10 office4 route01 (header 2 0 5) ''HELLO'' =
     Returns () (office4\<lparr>network :=
        [(\<lparr>p_to = 1, p_from = 0, p_length = 21\<rparr>, header 2 0 5, ''HELLO'')]\<rparr>) \<and>
   Send cfg10 office4 (route01\<lparr>p_from := 7, p_length := 99\<rparr>) (header 2 0 5) ''HELLO'' =
     Send cfg10 office4 route01 (header 2 0 5) ''HELLO''"
proof -
  have h1: "m_length (header 2 0 5) \<le> MaxMailSize cfg10"
    by (simp add: header_def cfg10_def)
  have h2: "0 \<le> m_to (header 2 0 5)"
    by (simp add: header_def)
  have h3: "m_to (header 2 0 5) < numBoxes office4"
    by (simp add: header_def numBoxes_def office4_def)
  have h4: "m_length (header 2 0 5) \<le> length ''HELLO''"
    by (simp add: header_def)
  show ?thesis
    using Send_hands_header_then_data [OF h1 h2 h3 h4, where pktH = route01 and a = 7 and n = 99]
    by (simp add: header_def cfg10_def office4_def route01_def)
qed

text \<open>
  Claim C7. Protocol violations are fatal and nothing else is: \<^verbatim>\<open>Send\<close> stops at an
  assertion exactly when \<^verbatim>\<open>mailHdr.length > MaxMailSize\<close> or \<^verbatim>\<open>mailHdr.to\<close> is outside
  \<^verbatim>\<open>[0, numBoxes)\<close>, before anything is transmitted; the dispatcher stops exactly under
  the same two conditions on an arriving packet, before anything is enqueued; the
  \<^verbatim>\<open>Mail\<close> constructor stops exactly when \<^verbatim>\<open>mailHdr.length > MaxMailSize\<close>. When the
  conditions hold each of them returns, and what it returns carries no error value.
\<close>

theorem protocol_violations_are_fatal:
  "Send cfg po pktH mailH d =
     (if m_length mailH \<le> MaxMailSize cfg \<and> 0 \<le> m_to mailH \<and> m_to mailH < numBoxes po
      then Returns () (po\<lparr>network := network po @
             [(pktH\<lparr>p_from := netAddr po, p_length := m_length mailH + sizeofMailHeader cfg\<rparr>,
               mailH, take (m_length mailH) d)]\<rparr>)
      else Fatal AssertionFailed) \<and>
   PostalDelivery cfg po (pktH, mailH, d) =
     (if 0 \<le> m_to mailH \<and> m_to mailH < numBoxes po \<and> m_length mailH \<le> MaxMailSize cfg
      then Returns () (po\<lparr>boxes := (boxes po)[nat (m_to mailH) :=
             boxes po ! nat (m_to mailH) @
               [\<lparr>pktHdr = pktH, mailHdr = mailH, data = take (m_length mailH) d,
                 remainingParts = 0, attempts = 0\<rparr>]]\<rparr>)
      else Fatal AssertionFailed) \<and>
   Mail_new cfg pktH mailH msgData =
     (if m_length mailH \<le> MaxMailSize cfg
      then Inr \<lparr>pktHdr = pktH, mailHdr = mailH,
                data = (case msgData of None \<Rightarrow> [] | Some s \<Rightarrow> take (m_length mailH) s),
                remainingParts = 0, attempts = 0\<rparr>
      else Inl AssertionFailed)"
  by (simp add: Send_def PostalDelivery_def Put_def Mail_new_def bcopy_def SynchList_Append_def
      split: option.splits)

text \<open>
  Claim C2, as the code has it. For every message dequeued from a mailbox by \<^verbatim>\<open>Get\<close>
  while the in-flight list is not empty, the oldest in-flight mail is removed exactly
  when its source mailbox (\<^verbatim>\<open>mailHdr.from\<close>) equals the destination mailbox
  (\<^verbatim>\<open>mailHdr.to\<close>) of the message just received; only the oldest in-flight mail is looked
  at, and no other one is removed.
\<close>

theorem Get_acknowledges_oldest:
  assumes "boxes po ! box = mail # rest" and "sentMessages po = oldest # others"
  shows "Get po box =
     Returns (pktHdr mail, mailHdr mail, take (m_length (mailHdr mail)) (data mail))
       (po\<lparr>boxes := (boxes po)[box := rest],
           sentMessages := (if m_from (mailHdr oldest) = m_to (mailHdr mail)
                            then others else oldest # others)\<rparr>)"
  using assms by (simp add: Get_def SynchList_Remove_def SynchList_GetFirst_def)

theorem Get_acknowledges_oldest_witness:
  "Get office_reply 1 =
     Returns (route01, header 1 5 2, ''ok'') (office_reply\<lparr>boxes := [[], [], [], []], sentMessages := []\<rparr>)"
proof -
  have h1: "boxes office_reply ! 1 = letter 1 5 ''ok'' # []"
    by (simp add: office_reply_def office4_def)
  have h2: "sentMessages office_reply = letter 0 1 ''ping'' # []"
    by (simp add: office_reply_def office4_def)
  show ?thesis
    using Get_acknowledges_oldest [OF h1 h2]
    by (simp add: office_reply_def office4_def letter_def header_def)
qed

text \<open>
  The in-flight mail below is addressed to mailbox 0 and the message received comes from
  mailbox 5, so destination and source differ; the mail is removed all the same, because
  it was sent from mailbox 1 and the message is addressed to mailbox 1.
\<close>

theorem Get_acknowledges_counterexample:
  "m_to (mailHdr (letter 0 1 ''ping'')) \<noteq> m_from (mailHdr (letter 1 5 ''ok'')) \<and>
   sentMessages office_reply = [letter 0 1 ''ping''] \<and>
   boxes office_reply ! 1 = [letter 1 5 ''ok''] \<and>
   Get office_reply 1 =
     Returns (route01, header 1 5 2, ''ok'') (office_reply\<lparr>boxes := [[], [], [], []], sentMessages := []\<rparr>)"
  by (simp add: Get_def SynchList_Remove_def SynchList_GetFirst_def office_reply_def office4_def
      letter_def header_def)

text \<open>
  When the in-flight list holds at least one mail per \<^verbatim>\<open>Get\<close>, a mailbox hands its
  messages out in the order of the \<^verbatim>\<open>Put\<close>s, as the list underneath does.
\<close>

lemma mailbox_fifo_with_mail_in_flight:
  assumes "box < length (boxes po)" and "boxes po ! box = []"
    and "\<forall>pk \<in> set pks. m_length (fst (snd pk)) \<le> MaxMailSize cfg"
    and "length pks \<le> length (sentMessages po)"
  shows "\<exists>po1 po2. Put_all cfg po box pks = Returns () po1 \<and>
            Get_n po1 box (length pks) =
              Returns (map (\<lambda>pk. (fst pk, fst (snd pk),
                           take (m_length (fst (snd pk))) (snd (snd pk)))) pks) po2 \<and>
            boxes po2 ! box = []"
proof -
  let ?po1 = "po\<lparr>boxes := (boxes po)[box := boxes po ! box @ map as_mail pks]\<rparr>"
  have p: "Put_all cfg po box pks = Returns () ?po1"
    using assms(1,3) by (rule Put_all_appends)
  have b: "boxes ?po1 ! box = map as_mail pks"
    using assms(1,2) by simp
  have "\<exists>po'. Get_n ?po1 box (length (map as_mail pks)) =
       Returns (map (\<lambda>m. (pktHdr m, mailHdr m, take (m_length (mailHdr m)) (data m)))
                  (map as_mail pks)) po' \<and>
     boxes po' ! box = []"
    using assms(1,4) b by (intro Get_n_takes) simp_all
  then obtain po2 where g: "Get_n ?po1 box (length pks) =
       Returns (map (\<lambda>m. (pktHdr m, mailHdr m, take (m_length (mailHdr m)) (data m)))
                  (map as_mail pks)) po2" "boxes po2 ! box = []"
    by auto
  have "map (\<lambda>m. (pktHdr m, mailHdr m, take (m_length (mailHdr m)) (data m))) (map as_mail pks) =
      map (\<lambda>pk. (fst pk, fst (snd pk), take (m_length (fst (snd pk))) (snd (snd pk)))) pks"
    by (simp add: as_mail_def)
  with p g show ?thesis
    by auto
qed


subsection \<open>The single-mail reliable send and the timeout handler\<close>

lemma backup_empty:
  "sentMessages po = [] \<Longrightarrow>
   backup cfg po mail = Inr (mail\<lparr>attempts := 1\<rparr>, po\<lparr>sentMessages := [mail\<lparr>attempts := 1\<rparr>]\<rparr>)"
  by (simp add: backup_def FindMail_def SynchList_isEmpty_def SynchList_Append_def Let_def)

lemma backup_found:
  "sentMessages po = oldest # others \<Longrightarrow> attempts oldest \<le> int (MAXREEMISSIONS cfg) \<Longrightarrow>
   backup cfg po mail = Inr (oldest\<lparr>attempts := attempts oldest + 1\<rparr>,
       po\<lparr>sentMessages := oldest\<lparr>attempts := attempts oldest + 1\<rparr> # others\<rparr>)"
  by (simp add: backup_def FindMail_def SynchList_isEmpty_def SynchList_GetFirst_def Let_def)

lemma backup_exhausted:
  "sentMessages po = oldest # others \<Longrightarrow> \<not> attempts oldest \<le> int (MAXREEMISSIONS cfg) \<Longrightarrow>
   backup cfg po mail = Inl NetworkError"
  by (simp add: backup_def FindMail_def SynchList_isEmpty_def SynchList_GetFirst_def)

text \<open>The backup step appends one mail or increments the attempts of the first.\<close>

lemma in_flight_backed_up:
  assumes "backup cfg po mail = Inr (m, po')"
  shows "sentMessages po' = sentMessages po @ [m] \<or>
         (\<exists>e others. sentMessages po = e # others \<and>
            sentMessages po' = e\<lparr>attempts := attempts e + 1\<rparr> # others)"
  using assms
  by (cases "sentMessages po")
     (auto simp: backup_def FindMail_def SynchList_isEmpty_def SynchList_GetFirst_def
        SynchList_Append_def Let_def split: if_splits)

lemma strlen_take_le: "strlen (take n s) \<le> n"
proof -
  have "length (takeWhile (\<lambda>c. c \<noteq> NUL) (take n s)) \<le> length (take n s)"
    by (rule length_takeWhile_le)
  then show ?thesis by (simp add: strlen_def cstring_def)
qed

lemma TimeOutHandler_empty: "sentMessages po = [] \<Longrightarrow> TimeOutHandler cfg po = Halted po"
  by (simp add: TimeOutHandler.simps SynchList_isEmpty_def)

lemma TimeOutHandler_head:
  "sentMessages po = e # others \<Longrightarrow> NUL \<in> set (take (MaxMailSize cfg) (data e)) \<Longrightarrow>
   TimeOutHandler cfg po =
     ReliableSend_small cfg po (pktHdr e) (mailHdr e) (take (MaxMailSize cfg) (data e))"
  using strlen_take_le [of "MaxMailSize cfg" "data e"]
  by (simp add: TimeOutHandler.simps SynchList_isEmpty_def SynchList_GetFirst_def
      ReliableSend.simps)

lemma TimeOutHandler_overrun:
  "sentMessages po = e # others \<Longrightarrow> NUL \<notin> set (take (MaxMailSize cfg) (data e)) \<Longrightarrow>
   TimeOutHandler cfg po = Fatal BufferOverrun"
  by (simp add: TimeOutHandler.simps SynchList_isEmpty_def SynchList_GetFirst_def)

text \<open>
  The single-mail branch, for a header that passes the checks of \<^verbatim>\<open>Send\<close>: what is in
  flight, what is transmitted, and the final \<^verbatim>\<open>Receive\<close> on box 1.
\<close>

lemma small_general:
  assumes "m_length mailH \<le> MaxMailSize cfg" "0 \<le> m_to mailH" "m_to mailH < numBoxes po"
  shows "ReliableSend_small cfg po pktH mailH d =
    (case sentMessages po of
       [] \<Rightarrow>
         (case Receive cfg (po\<lparr>sentMessages := [\<lparr>pktHdr = pktH, mailHdr = mailH,
                     data = strncpy d (MaxMailSize cfg), remainingParts = 0, attempts = 1\<rparr>],
                network := network po @
                  [(pktH\<lparr>p_from := netAddr po, p_length := m_length mailH + sizeofMailHeader cfg\<rparr>,
                    mailH\<lparr>m_remainingParts := 0\<rparr>, take (m_length mailH) d)],
                timers := Suc (timers po)\<rparr>) 1 of
            Returns r po4 \<Rightarrow> Returns () po4
          | Waiting p \<Rightarrow> Waiting p
          | Halted p \<Rightarrow> Halted p
          | Fatal f \<Rightarrow> Fatal f)
     | oldest # others \<Rightarrow>
         if attempts oldest \<le> int (MAXREEMISSIONS cfg)
         then (case Receive cfg (po\<lparr>sentMessages := oldest\<lparr>attempts := attempts oldest + 1\<rparr> # others,
                network := network po @
                  [(pktH\<lparr>p_from := netAddr po, p_length := m_length mailH + sizeofMailHeader cfg\<rparr>,
                    mailH\<lparr>m_remainingParts := remainingParts oldest\<rparr>, take (m_length mailH) d)],
                timers := Suc (timers po)\<rparr>) 1 of
            Returns r po4 \<Rightarrow> Returns () po4
          | Waiting p \<Rightarrow> Waiting p
          | Halted p \<Rightarrow> Halted p
          | Fatal f \<Rightarrow> Fatal f)
         else Fatal NetworkError)"
proof (cases "sentMessages po")
  case Nil
  with assms show ?thesis
    by (simp add: ReliableSend_small_def Mail_new_def backup_empty Send_ok numBoxes_def)
next
  case (Cons oldest others)
  show ?thesis
  proof (cases "attempts oldest \<le> int (MAXREEMISSIONS cfg)")
    case True
    with Cons assms show ?thesis
      by (simp add: ReliableSend_small_def Mail_new_def backup_found Send_ok numBoxes_def)
  next
    case False
    with Cons assms show ?thesis
      by (simp add: ReliableSend_small_def Mail_new_def backup_exhausted)
  qed
qed

lemma small_first:
  assumes "m_length mailH \<le> MaxMailSize cfg" "0 \<le> m_to mailH" "m_to mailH < numBoxes po"
    "sentMessages po = []" "2 \<le> length (boxes po)" "boxes po ! 1 = []"
  shows "ReliableSend_small cfg po pktH mailH d =
     Waiting (po\<lparr>sentMessages := [\<lparr>pktHdr = pktH, mailHdr = mailH,
                     data = strncpy d (MaxMailSize cfg), remainingParts = 0, attempts = 1\<rparr>],
        network := network po @
        [(pktH\<lparr>p_from := netAddr po, p_length := m_length mailH + sizeofMailHeader cfg\<rparr>,
          mailH\<lparr>m_remainingParts := 0\<rparr>, take (m_length mailH) d)],
        timers := Suc (timers po)\<rparr>)"
  using assms
  by (simp add: ReliableSend_small_def Mail_new_def backup_empty Send_ok numBoxes_def Receive_waits)

lemma small_exhausted:
  assumes "m_length mailH \<le> MaxMailSize cfg"
    "sentMessages po = oldest # others" "\<not> attempts oldest \<le> int (MAXREEMISSIONS cfg)"
  shows "ReliableSend_small cfg po pktH mailH d = Fatal NetworkError"
  using assms
  by (simp add: ReliableSend_small_def Mail_new_def backup_exhausted)


text \<open>The packet that a timeout puts on the network for the first in-flight mail.\<close>

lemma TimeOutHandler_transmits:
  assumes "sentMessages po = e # others" and "attempts e \<le> int (MAXREEMISSIONS cfg)"
    and "NUL \<in> set (take (MaxMailSize cfg) (data e))"
    and "m_length (mailHdr e) \<le> MaxMailSize cfg"
    and "0 \<le> m_to (mailHdr e)" and "m_to (mailHdr e) < numBoxes po"
    and "2 \<le> length (boxes po)" and "boxes po ! 1 = []"
  shows "TimeOutHandler cfg po =
     Waiting (po\<lparr>sentMessages := e\<lparr>attempts := attempts e + 1\<rparr> # others,
        network := network po @ [on_the_wire cfg (netAddr po) e],
        timers := Suc (timers po)\<rparr>)"
  using assms
  by (simp add: TimeOutHandler_head small_general Receive_waits numBoxes_def on_the_wire_def)

text \<open>
  Claim C9. \<^verbatim>\<open>List::GetFirst\<close> needs a non-empty list: \<^verbatim>\<open>Remove\<close> on the empty list returns
  \<^verbatim>\<open>NULL\<close>, \<^verbatim>\<open>GetFirst\<close> on it reads through \<^verbatim>\<open>NULL\<close>. \<^verbatim>\<open>FindMail\<close> and the timeout handler
  test for emptiness first. \<^verbatim>\<open>MailBox::Get\<close> does not: with a message in box 2 and no
  in-flight mail, \<^verbatim>\<open>Receive\<close> on box 2 ends in the read through \<^verbatim>\<open>NULL\<close>.
\<close>

theorem Get_calls_GetFirst_unguarded:
  "GetFirst (List_new :: Mail List) = Inl NullDereference \<and>
   Remove (List_new :: Mail List) = Inr (None, List_new) \<and>
   sentMessages office_hello = [] \<and>
   FindMail office_hello (letter 2 0 ''HELLO'') = Inr None \<and>
   TimeOutHandler cfg10 office_hello = Halted office_hello \<and>
   Receive cfg10 office_hello 2 = Fatal NullDereference"
  by (simp add: GetFirst_def List_new_def Remove_def SortedRemove_def IsEmpty_def FindMail_def
      SynchList_isEmpty_def TimeOutHandler_empty Receive_def numBoxes_def Get_null
      office_hello_def office4_def)

text \<open>
  Claim C4, as the code has it. In the single-mail branch of \<^verbatim>\<open>ReliableSend\<close>, before
  transmitting, the in-flight list is only tested for emptiness. When it is empty the
  backup of the message is inserted with \<^verbatim>\<open>attempts = 1\<close>. When it is not empty nothing is
  inserted: its oldest mail, whatever mailbox it is addressed to, has \<^verbatim>\<open>attempts\<close>
  incremented and lends its \<^verbatim>\<open>remainingParts\<close> to the outgoing header, or the send is a
  fatal network error when those attempts already exceed the retry ceiling. (Stated for
  a sender whose box 1 exists and is empty, so that the final \<^verbatim>\<open>Receive\<close> waits.)
\<close>

theorem ReliableSend_backs_up_once:
  assumes "strlen d \<le> MaxMailSize cfg" and "m_length mailH \<le> MaxMailSize cfg"
    and "0 \<le> m_to mailH" and "m_to mailH < numBoxes po"
    and "2 \<le> length (boxes po)" and "boxes po ! 1 = []"
  shows "ReliableSend cfg po pktH mailH d =
    (case sentMessages po of
       [] \<Rightarrow>
         Waiting (po\<lparr>sentMessages := [\<lparr>pktHdr = pktH, mailHdr = mailH,
                     data = strncpy d (MaxMailSize cfg), remainingParts = 0, attempts = 1\<rparr>],
                network := network po @
                  [(pktH\<lparr>p_from := netAddr po, p_length := m_length mailH + sizeofMailHeader cfg\<rparr>,
                    mailH\<lparr>m_remainingParts := 0\<rparr>, take (m_length mailH) d)],
                timers := Suc (timers po)\<rparr>)
     | oldest # others \<Rightarrow>
         if attempts oldest \<le> int (MAXREEMISSIONS cfg)
         then Waiting (po\<lparr>sentMessages := oldest\<lparr>attempts := attempts oldest + 1\<rparr> # others,
                network := network po @
                  [(pktH\<lparr>p_from := netAddr po, p_length := m_length mailH + sizeofMailHeader cfg\<rparr>,
                    mailH\<lparr>m_remainingParts := remainingParts oldest\<rparr>, take (m_length mailH) d)],
                timers := Suc (timers po)\<rparr>)
         else Fatal NetworkError)"
proof -
  have "ReliableSend cfg po pktH mailH d = ReliableSend_small cfg po pktH mailH d"
    using assms(1) by (simp add: ReliableSend.simps)
  then show ?thesis
    using assms
    by (simp add: small_general Receive_waits split: list.splits)
qed

theorem ReliableSend_backs_up_once_witness:
  "ReliableSend cfg10 office4 route01 (header 3 1 3) (''hi'' @ [NUL]) =
     Waiting (office4\<lparr>sentMessages := [\<lparr>pktHdr = route01, mailHdr = header 3 1 3,
                     data = ''hi'' @ replicate 8 NUL, remainingParts = 0, attempts = 1\<rparr>],
                network := [(\<lparr>p_to = 1, p_from = 0, p_length = 19\<rparr>, header 3 1 3, ''hi'' @ [NUL])],
                timers := 1\<rparr>)"
proof -
  have h1: "strlen (''hi'' @ [NUL]) \<le> MaxMailSize cfg10"
    by (simp add: strlen_def cstring_def NUL_def cfg10_def)
  have h2: "m_length (header 3 1 3) \<le> MaxMailSize cfg10"
    by (simp add: header_def cfg10_def)
  have h3: "0 \<le> m_to (header 3 1 3)"
    by (simp add: header_def)
  have h4: "m_to (header 3 1 3) < numBoxes office4"
    by (simp add: header_def numBoxes_def office4_def)
  have h5: "2 \<le> length (boxes office4)"
    by (simp add: office4_def)
  have h6: "boxes office4 ! 1 = []"
    by (simp add: office4_def)
  show ?thesis
    using ReliableSend_backs_up_once [OF h1 h2 h3 h4 h5 h6, of route01]
    by (simp add: office4_def header_def cfg10_def route01_def strncpy_def cstring_def NUL_def)
qed

text \<open>
  The only in-flight mail is addressed to mailbox 2. A send to mailbox 3 finds no mail
  for mailbox 3, yet it inserts nothing and increments the attempts of the mail for
  mailbox 2.
\<close>

theorem ReliableSend_backs_up_counterexample:
  "m_to (mailHdr (letter 2 1 ''ping'')) \<noteq> m_to (header 3 1 3) \<and>
   sentMessages office_busy = [letter 2 1 ''ping''] \<and>
   ReliableSend cfg10 office_busy route01 (header 3 1 3) (''hi'' @ [NUL]) =
     Waiting (office_busy\<lparr>sentMessages := [(letter 2 1 ''ping'')\<lparr>attempts := 2\<rparr>],
                network := [(\<lparr>p_to = 1, p_from = 0, p_length = 19\<rparr>, header 3 1 3, ''hi'' @ [NUL])],
                timers := 1\<rparr>)"
proof -
  have s: "strlen (''hi'' @ [NUL]) \<le> MaxMailSize cfg10"
    by (simp add: strlen_def cstring_def NUL_def cfg10_def)
  have "ReliableSend cfg10 office_busy route01 (header 3 1 3) (''hi'' @ [NUL]) =
      ReliableSend_small cfg10 office_busy route01 (header 3 1 3) (''hi'' @ [NUL])"
    using s by (simp add: ReliableSend.simps)
  then show ?thesis
    by (simp add: small_general Receive_waits office_busy_def office4_def header_def cfg10_def
        route01_def letter_def numBoxes_def)
qed

text \<open>
  \<^verbatim>\<open>Receive\<close> on box 1, spelled out: the box must exist; on an empty box the caller waits;
  otherwise the oldest message is taken, the first in-flight mail is read and removed
  when its source is the destination of that message, and the length is asserted.
\<close>

lemma Receive_box_1:
  "Receive cfg po 1 =
     (if 2 \<le> length (boxes po)
      then (case boxes po ! 1 of
              [] \<Rightarrow> Waiting po
            | m1 # rest \<Rightarrow>
                (case sentMessages po of
                   [] \<Rightarrow> Fatal NullDereference
                 | e # others \<Rightarrow>
                     if m_length (mailHdr m1) \<le> MaxMailSize cfg
                     then Returns (pktHdr m1, mailHdr m1, take (m_length (mailHdr m1)) (data m1))
                            (po\<lparr>boxes := (boxes po)[1 := rest],
                                sentMessages := (if m_from (mailHdr e) = m_to (mailHdr m1)
                                                 then others else e # others)\<rparr>)
                     else Fatal AssertionFailed))
      else Fatal AssertionFailed)"
  by (auto simp: Receive_def numBoxes_def Get_def SynchList_Remove_def SynchList_GetFirst_def
      split: list.splits)


text \<open>
  Claim C5, as the code has it. When the timeout handler fires with an empty in-flight
  list it transmits nothing and halts the machine. With a non-empty in-flight list whose
  oldest mail has a terminator among the \<^verbatim>\<open>MaxMailSize\<close> bytes of its data and a header
  that passes the checks of \<^verbatim>\<open>Send\<close>: when that mail's attempts have not exceeded the
  retry ceiling, the handler increments them, resends the mail's headers and data
  through \<^verbatim>\<open>Send\<close>, schedules itself again and receives on box 1 (it waits there when
  that box is empty, and takes its oldest message otherwise); when the attempts already
  exceed the ceiling it transmits nothing and the process dies with the network error.
\<close>

theorem TimeOutHandler_resends_oldest:
  assumes "case sentMessages po of [] \<Rightarrow> True
           | e # others \<Rightarrow> NUL \<in> set (take (MaxMailSize cfg) (data e)) \<and>
                m_length (mailHdr e) \<le> MaxMailSize cfg \<and>
                0 \<le> m_to (mailHdr e) \<and> m_to (mailHdr e) < numBoxes po"
  shows "TimeOutHandler cfg po =
    (case sentMessages po of
       [] \<Rightarrow> Halted po
     | e # others \<Rightarrow>
         if attempts e \<le> int (MAXREEMISSIONS cfg)
         then (let po3 = po\<lparr>sentMessages := e\<lparr>attempts := attempts e + 1\<rparr> # others,
                    network := network po @
                      [((pktHdr e)\<lparr>p_from := netAddr po,
                          p_length := m_length (mailHdr e) + sizeofMailHeader cfg\<rparr>,
                        (mailHdr e)\<lparr>m_remainingParts := remainingParts e\<rparr>,
                        take (m_length (mailHdr e)) (take (MaxMailSize cfg) (data e)))],
                    timers := Suc (timers po)\<rparr>
               in if 2 \<le> length (boxes po)
                  then (case boxes po ! 1 of
                          [] \<Rightarrow> Waiting po3
                        | m1 # rest \<Rightarrow>
                            if m_length (mailHdr m1) \<le> MaxMailSize cfg
                            then Returns () (po3\<lparr>boxes := (boxes po)[1 := rest],
                                   sentMessages := (if m_from (mailHdr e) = m_to (mailHdr m1)
                                      then others else e\<lparr>attempts := attempts e + 1\<rparr> # others)\<rparr>)
                            else Fatal AssertionFailed)
                  else Fatal AssertionFailed)
         else Fatal NetworkError)"
proof (cases "sentMessages po")
  case Nil
  then show ?thesis by (simp add: TimeOutHandler_empty)
next
  case (Cons e others)
  with assms have h: "NUL \<in> set (take (MaxMailSize cfg) (data e))"
    "m_length (mailHdr e) \<le> MaxMailSize cfg" "0 \<le> m_to (mailHdr e)"
    "m_to (mailHdr e) < numBoxes po"
    by simp_all
  have "TimeOutHandler cfg po =
     ReliableSend_small cfg po (pktHdr e) (mailHdr e) (take (MaxMailSize cfg) (data e))"
    using Cons h(1) by (rule TimeOutHandler_head)
  then show ?thesis
    using Cons h(2-4)
    by (simp add: small_general Receive_box_1 Let_def split: list.splits)
qed

theorem TimeOutHandler_resends_oldest_witness:
  "TimeOutHandler cfg10 office_pending =
     Waiting (office_pending\<lparr>sentMessages := [(backup_of 2 1 ''ping'')\<lparr>attempts := 2\<rparr>],
        network := [(\<lparr>p_to = 1, p_from = 0, p_length = 21\<rparr>, header 2 1 5, ''ping'' @ [NUL])],
        timers := 1\<rparr>)"
proof -
  have h: "case sentMessages office_pending of [] \<Rightarrow> True
           | e # others \<Rightarrow> NUL \<in> set (take (MaxMailSize cfg10) (data e)) \<and>
                m_length (mailHdr e) \<le> MaxMailSize cfg10 \<and>
                0 \<le> m_to (mailHdr e) \<and> m_to (mailHdr e) < numBoxes office_pending"
    by (simp add: office_pending_def office4_def backup_of_def header_def cfg10_def numBoxes_def
        strncpy_def cstring_def NUL_def)
  show ?thesis
    using TimeOutHandler_resends_oldest [OF h]
    by (simp add: office_pending_def office4_def backup_of_def header_def cfg10_def
        route01_def strncpy_def cstring_def NUL_def)
qed

text \<open>
  With a non-empty in-flight list whose oldest mail has 3 attempts (the ceiling is 2), the
  handler resends nothing. It resends nothing either when the oldest mail is the backup
  of a string of exactly \<^verbatim>\<open>MaxMailSize\<close> characters, which has no terminator.
\<close>

theorem TimeOutHandler_resends_counterexample:
  "sentMessages office_worn = [(backup_of 2 1 ''ping'')\<lparr>attempts := 3\<rparr>] \<and>
   TimeOutHandler cfg10 office_worn = Fatal NetworkError \<and>
   sentMessages office_unterminated =
     [\<lparr>pktHdr = route01, mailHdr = header 2 1 10, data = ''0123456789'', remainingParts = 0,
       attempts = 1\<rparr>] \<and>
   TimeOutHandler cfg10 office_unterminated = Fatal BufferOverrun"
proof -
  have a: "sentMessages office_worn = (backup_of 2 1 ''ping'')\<lparr>attempts := 3\<rparr> # []"
    by (simp add: office_worn_def office4_def)
  have t: "NUL \<in> set (take (MaxMailSize cfg10) (data ((backup_of 2 1 ''ping'')\<lparr>attempts := 3\<rparr>)))"
    by (simp add: backup_of_def cfg10_def strncpy_def cstring_def NUL_def)
  have "TimeOutHandler cfg10 office_worn =
      ReliableSend_small cfg10 office_worn (pktHdr ((backup_of 2 1 ''ping'')\<lparr>attempts := 3\<rparr>))
        (mailHdr ((backup_of 2 1 ''ping'')\<lparr>attempts := 3\<rparr>))
        (take (MaxMailSize cfg10) (data ((backup_of 2 1 ''ping'')\<lparr>attempts := 3\<rparr>)))"
    using a t by (rule TimeOutHandler_head)
  also have "\<dots> = Fatal NetworkError"
    by (rule small_exhausted [OF _ a]) (simp_all add: backup_of_def header_def cfg10_def)
  finally have b: "TimeOutHandler cfg10 office_worn = Fatal NetworkError" .
  have c: "sentMessages office_unterminated =
     \<lparr>pktHdr = route01, mailHdr = header 2 1 10, data = ''0123456789'', remainingParts = 0,
       attempts = 1\<rparr> # []"
    by (simp add: office_unterminated_def office4_def)
  have d: "TimeOutHandler cfg10 office_unterminated = Fatal BufferOverrun"
    using c by (rule TimeOutHandler_overrun) (simp add: cfg10_def NUL_def)
  from a b c d show ?thesis by simp
qed

text \<open>Timeouts while no reply arrives: each one resends, until the attempts run out.\<close>

lemma timer_fires_resend:
  assumes "sentMessages po = e # others" and "attempts e \<le> int (MAXREEMISSIONS cfg)"
    and "NUL \<in> set (take (MaxMailSize cfg) (data e))"
    and "m_length (mailHdr e) \<le> MaxMailSize cfg"
    and "0 \<le> m_to (mailHdr e)" and "m_to (mailHdr e) < numBoxes po"
    and "2 \<le> length (boxes po)" and "boxes po ! 1 = []" and "timers po = Suc t"
  shows "timer_fires cfg (Waiting po) =
     Waiting (po\<lparr>sentMessages := e\<lparr>attempts := attempts e + 1\<rparr> # others,
        network := network po @
          [((pktHdr e)\<lparr>p_from := netAddr po,
              p_length := m_length (mailHdr e) + sizeofMailHeader cfg\<rparr>,
            (mailHdr e)\<lparr>m_remainingParts := remainingParts e\<rparr>,
            take (m_length (mailHdr e)) (take (MaxMailSize cfg) (data e)))]\<rparr>)"
  using assms
  by (simp add: timer_fires_def TimeOutHandler_head small_general Receive_waits numBoxes_def)

lemma timer_fires_exhausted:
  assumes "sentMessages po = e # others" and "\<not> attempts e \<le> int (MAXREEMISSIONS cfg)"
    and "NUL \<in> set (take (MaxMailSize cfg) (data e))"
    and "m_length (mailHdr e) \<le> MaxMailSize cfg" and "timers po = Suc t"
  shows "timer_fires cfg (Waiting po) = Fatal NetworkError"
  using assms
  by (simp add: timer_fires_def TimeOutHandler_head small_exhausted)


lemma timer_fires_run:
  assumes "sentMessages po = e # others"
    and "NUL \<in> set (take (MaxMailSize cfg) (data e))"
    and "m_length (mailHdr e) \<le> MaxMailSize cfg"
    and "0 \<le> m_to (mailHdr e)" and "m_to (mailHdr e) < numBoxes po"
    and "2 \<le> length (boxes po)" and "boxes po ! 1 = []" and "timers po = Suc t"
  shows "attempts e + int k \<le> int (MAXREEMISSIONS cfg) + 1 \<Longrightarrow>
     timer_fires_n cfg k (Waiting po) =
     Waiting (po\<lparr>sentMessages := e\<lparr>attempts := attempts e + int k\<rparr> # others,
        network := network po @ replicate k
          ((pktHdr e)\<lparr>p_from := netAddr po,
              p_length := m_length (mailHdr e) + sizeofMailHeader cfg\<rparr>,
            (mailHdr e)\<lparr>m_remainingParts := remainingParts e\<rparr>,
            take (m_length (mailHdr e)) (take (MaxMailSize cfg) (data e)))\<rparr>)"
proof (induction k)
  case 0
  have "po\<lparr>sentMessages := e\<lparr>attempts := attempts e\<rparr> # others, network := network po\<rparr> = po"
    using assms(1) by simp
  then show ?case by simp
next
  case (Suc k)
  then have "attempts e + int k \<le> int (MAXREEMISSIONS cfg)" by simp
  with Suc assms show ?case
    by (simp add: timer_fires_resend [where t = t] numBoxes_def replicate_append_same add.assoc)
qed




text \<open>
  The same count for a piece of a fragmented message that is the oldest in-flight mail:
  it is appended with \<^verbatim>\<open>attempts = 0\<close> and a terminator among its bytes, and is first
  transmitted by the handler itself.
\<close>

lemma retry_ceiling_of_a_chunk:
  assumes "sentMessages po = e # others" and "attempts e = 0"
    and "NUL \<in> set (take (MaxMailSize cfg) (data e))"
    and "m_length (mailHdr e) \<le> MaxMailSize cfg"
    and "0 \<le> m_to (mailHdr e)" and "m_to (mailHdr e) < numBoxes po"
    and "2 \<le> length (boxes po)" and "boxes po ! 1 = []"
    and "k \<le> MAXREEMISSIONS cfg"
  shows "timer_fires_n cfg k (TimeOutHandler cfg po) =
     Waiting (po\<lparr>sentMessages := e\<lparr>attempts := int k + 1\<rparr> # others,
        network := network po @ replicate (Suc k) (on_the_wire cfg (netAddr po) e),
        timers := Suc (timers po)\<rparr>)"
    and "timer_fires_n cfg (Suc (MAXREEMISSIONS cfg)) (TimeOutHandler cfg po) = Fatal NetworkError"
proof -
  let ?e1 = "e\<lparr>attempts := attempts e + 1\<rparr>"
  let ?po1 = "po\<lparr>sentMessages := ?e1 # others,
        network := network po @ [on_the_wire cfg (netAddr po) e], timers := Suc (timers po)\<rparr>"
  have first: "TimeOutHandler cfg po = Waiting ?po1"
    using assms(1-8) by (intro TimeOutHandler_transmits) simp_all
  have run: "timer_fires_n cfg j (Waiting ?po1) =
     Waiting (?po1\<lparr>sentMessages := ?e1\<lparr>attempts := attempts ?e1 + int j\<rparr> # others,
        network := network ?po1 @ replicate j
          ((pktHdr ?e1)\<lparr>p_from := netAddr ?po1,
              p_length := m_length (mailHdr ?e1) + sizeofMailHeader cfg\<rparr>,
            (mailHdr ?e1)\<lparr>m_remainingParts := remainingParts ?e1\<rparr>,
            take (m_length (mailHdr ?e1)) (take (MaxMailSize cfg) (data ?e1)))\<rparr>)"
    if "j \<le> MAXREEMISSIONS cfg" for j
    using assms(2-8) that
    by (intro timer_fires_run [where t = "timers po"]) (simp_all add: numBoxes_def)
  have upto: "timer_fires_n cfg j (TimeOutHandler cfg po) =
     Waiting (po\<lparr>sentMessages := e\<lparr>attempts := int j + 1\<rparr> # others,
        network := network po @ replicate (Suc j) (on_the_wire cfg (netAddr po) e),
        timers := Suc (timers po)\<rparr>)" if "j \<le> MAXREEMISSIONS cfg" for j
    using run [OF that] assms(2)
    by (simp add: first on_the_wire_def replicate_append_same [symmetric] add.commute)
  show "timer_fires_n cfg k (TimeOutHandler cfg po) =
     Waiting (po\<lparr>sentMessages := e\<lparr>attempts := int k + 1\<rparr> # others,
        network := network po @ replicate (Suc k) (on_the_wire cfg (netAddr po) e),
        timers := Suc (timers po)\<rparr>)"
    using assms(9) by (rule upto)
  show "timer_fires_n cfg (Suc (MAXREEMISSIONS cfg)) (TimeOutHandler cfg po) = Fatal NetworkError"
    using assms(3,4)
    by (simp add: upto [of "MAXREEMISSIONS cfg"]
        timer_fires_exhausted [where t = "timers po" and others = others])
qed

lemma strlen_ack: "strlen ack = 7"
  by (simp add: strlen_def cstring_def ack_def NUL_def)

lemma length_ack: "length ack = 8"
  by (simp add: ack_def)

text \<open>
  The single-mail branch once the backup step has succeeded: the entry it yields is the
  first in-flight mail, nothing else of the post office has changed, and the branch
  transmits, schedules the timeout, and ends in \<^verbatim>\<open>Receive\<close> on box 1.
\<close>

lemma backup_result:
  assumes "backup cfg po mail = Inr (entry, po1)"
  shows "po1 = po\<lparr>sentMessages := entry # tl (sentMessages po1)\<rparr>"
  using assms
  by (cases "sentMessages po")
     (auto simp: backup_def FindMail_def SynchList_isEmpty_def SynchList_GetFirst_def
        SynchList_Append_def Let_def split: if_splits)

lemma small_after_backup:
  assumes "m_length mailH \<le> MaxMailSize cfg" "0 \<le> m_to mailH" "m_to mailH < numBoxes po"
    and "backup cfg po \<lparr>pktHdr = pktH, mailHdr = mailH, data = strncpy d (MaxMailSize cfg),
            remainingParts = 0, attempts = 0\<rparr> = Inr (entry, po1)"
  shows "ReliableSend_small cfg po pktH mailH d =
     (case Receive cfg (po1\<lparr>network := network po @
              [(pktH\<lparr>p_from := netAddr po, p_length := m_length mailH + sizeofMailHeader cfg\<rparr>,
                mailH\<lparr>m_remainingParts := remainingParts entry\<rparr>, take (m_length mailH) d)],
            timers := Suc (timers po)\<rparr>) 1 of
        Returns r po4 \<Rightarrow> Returns () po4
      | Waiting p \<Rightarrow> Waiting p
      | Halted p \<Rightarrow> Halted p
      | Fatal f \<Rightarrow> Fatal f)"
proof -
  have p: "po1 = po\<lparr>sentMessages := entry # tl (sentMessages po1)\<rparr>"
    using assms(4) by (rule backup_result)
  have f: "netAddr po1 = netAddr po" "network po1 = network po" "timers po1 = timers po"
    "numBoxes po1 = numBoxes po"
    by (subst p, simp add: numBoxes_def)+
  show ?thesis
    using assms f
    by (simp add: ReliableSend_small_def Mail_new_def Send_ok)
qed

text \<open>
  Claim C10. In the single-mail branch of \<^verbatim>\<open>ReliableSend\<close>, once the backup step has
  yielded the in-flight entry, the message is transmitted, the timeout is scheduled, and
  the sender receives on mailbox 1, whatever source mailbox the outgoing header names
  and whatever that source mailbox holds: it waits when box 1 is empty, and otherwise
  takes the oldest message of box 1. The peer's dispatcher puts the transmitted message
  into the addressed box, and \<^verbatim>\<open>ReliableReceive\<close> on that box (when the peer has mail in
  flight, so that its \<^verbatim>\<open>Get\<close> does not fault) sends the acknowledgement addressed to
  the source mailbox of the message. Delivered at the sender, that acknowledgement is
  appended to the source mailbox; when this is not mailbox 1, box 1 is left as it was,
  and a sender that waited on the empty box 1 still waits.
\<close>

theorem reply_awaited_on_box_1:
  assumes "strlen d \<le> MaxMailSize cfg" and "m_length mailH \<le> MaxMailSize cfg"
    and "0 \<le> m_to mailH" and "m_to mailH < numBoxes po"
    and "backup cfg po \<lparr>pktHdr = pktH, mailHdr = mailH, data = strncpy d (MaxMailSize cfg),
            remainingParts = 0, attempts = 0\<rparr> = Inr (entry, po1)"
    and "m_from mailH \<noteq> 1" and "0 \<le> m_from mailH" and "m_from mailH < numBoxes po"
    and "8 \<le> MaxMailSize cfg"
    and "m_to mailH < numBoxes peer" and "boxes peer ! nat (m_to mailH) = []"
    and "m_from mailH < numBoxes peer"
  shows "let sent = (pktH\<lparr>p_from := netAddr po,
                         p_length := m_length mailH + sizeofMailHeader cfg\<rparr>,
                     mailH\<lparr>m_remainingParts := remainingParts entry\<rparr>,
                     take (m_length mailH) d);
             po3 = po1\<lparr>network := network po @ [sent], timers := Suc (timers po)\<rparr>;
             reply = (\<lparr>p_to = netAddr po, p_from = netAddr peer,
                       p_length = 8 + sizeofMailHeader cfg\<rparr>,
                      \<lparr>m_to = m_from mailH, m_from = m_to mailH, m_length = 8,
                       m_remainingParts = 0\<rparr>,
                      ack);
             po4 = po3\<lparr>boxes := (boxes po)[nat (m_from mailH) :=
                      boxes po ! nat (m_from mailH) @ [as_mail reply]]\<rparr>
         in ReliableSend cfg po pktH mailH d =
              (if 2 \<le> length (boxes po)
               then (case boxes po ! 1 of
                       [] \<Rightarrow> Waiting po3
                     | m1 # rest \<Rightarrow>
                         if m_length (mailHdr m1) \<le> MaxMailSize cfg
                         then Returns () (po3\<lparr>boxes := (boxes po)[1 := rest],
                                sentMessages := (if m_from (mailHdr entry) = m_to (mailHdr m1)
                                   then tl (sentMessages po1) else sentMessages po1)\<rparr>)
                         else Fatal AssertionFailed)
               else Fatal AssertionFailed) \<and>
            PostalDelivery cfg peer sent =
              Returns () (peer\<lparr>boxes := (boxes peer)[nat (m_to mailH) := [as_mail sent]]\<rparr>) \<and>
            ReliableReceive cfg (peer\<lparr>boxes := (boxes peer)[nat (m_to mailH) := [as_mail sent]]\<rparr>)
                (m_to mailH) buf big =
              (case sentMessages peer of
                 [] \<Rightarrow> Fatal NullDereference
               | e0 # es \<Rightarrow>
                   if 0 < remainingParts entry
                   then Waiting (peer\<lparr>boxes := (boxes peer)[nat (m_to mailH) := []],
                          sentMessages := (if m_from (mailHdr e0) = m_to mailH then es else e0 # es),
                          network := network peer @ [reply]\<rparr>)
                   else Returns (fst sent, fst (snd sent),
                            take (m_length mailH) d @ drop (m_length mailH) buf,
                            strcat big (take (m_length mailH) d @ drop (m_length mailH) buf))
                          (peer\<lparr>boxes := (boxes peer)[nat (m_to mailH) := []],
                          sentMessages := (if m_from (mailHdr e0) = m_to mailH then es else e0 # es),
                          network := network peer @ [reply]\<rparr>)) \<and>
            PostalDelivery cfg po3 reply = Returns () po4 \<and>
            boxes po4 ! nat (m_from mailH) = boxes po ! nat (m_from mailH) @ [as_mail reply] \<and>
            boxes po4 ! 1 = boxes po ! 1 \<and>
            (Receive cfg po4 1 = Waiting po4) = (2 \<le> length (boxes po) \<and> boxes po ! 1 = [])"
proof -
  let ?sent = "(pktH\<lparr>p_from := netAddr po, p_length := m_length mailH + sizeofMailHeader cfg\<rparr>,
                mailH\<lparr>m_remainingParts := remainingParts entry\<rparr>, take (m_length mailH) d)"
  let ?po3 = "po1\<lparr>network := network po @ [?sent], timers := Suc (timers po)\<rparr>"
  let ?reply = "(\<lparr>p_to = netAddr po, p_from = netAddr peer, p_length = 8 + sizeofMailHeader cfg\<rparr>,
                 \<lparr>m_to = m_from mailH, m_from = m_to mailH, m_length = 8, m_remainingParts = 0\<rparr>,
                 ack)"
  let ?po4 = "?po3\<lparr>boxes := (boxes po)[nat (m_from mailH) :=
                      boxes po ! nat (m_from mailH) @ [as_mail ?reply]]\<rparr>"
  let ?peer1 = "peer\<lparr>boxes := (boxes peer)[nat (m_to mailH) := [as_mail ?sent]]\<rparr>"
  have p: "po1 = po\<lparr>sentMessages := entry # tl (sentMessages po1)\<rparr>"
    using assms(5) by (rule backup_result)
  have bx: "boxes po1 = boxes po"
    by (subst p) simp
  have sm: "sentMessages po1 = entry # tl (sentMessages po1)"
    by (subst p) simp
  have src: "nat (m_from mailH) < length (boxes po)" "nat (m_from mailH) \<noteq> 1"
    using assms(6-8) unfolding numBoxes_def by linarith+
  have dst: "nat (m_to mailH) < length (boxes peer)"
    using assms(3,10) unfolding numBoxes_def by linarith
  have c1: "ReliableSend cfg po pktH mailH d =
              (if 2 \<le> length (boxes po)
               then (case boxes po ! 1 of
                       [] \<Rightarrow> Waiting ?po3
                     | m1 # rest \<Rightarrow>
                         if m_length (mailHdr m1) \<le> MaxMailSize cfg
                         then Returns () (?po3\<lparr>boxes := (boxes po)[1 := rest],
                                sentMessages := (if m_from (mailHdr entry) = m_to (mailHdr m1)
                                   then tl (sentMessages po1) else sentMessages po1)\<rparr>)
                         else Fatal AssertionFailed)
               else Fatal AssertionFailed)"
  proof -
    have "ReliableSend cfg po pktH mailH d = ReliableSend_small cfg po pktH mailH d"
      using assms(1) by (simp add: ReliableSend.simps)
    also have "\<dots> = (case Receive cfg ?po3 1 of
        Returns r po4 \<Rightarrow> Returns () po4
      | Waiting p \<Rightarrow> Waiting p
      | Halted p \<Rightarrow> Halted p
      | Fatal f \<Rightarrow> Fatal f)"
      using assms(2-5) by (rule small_after_backup)
    finally show ?thesis
      using sm by (simp add: Receive_box_1 bx split: list.splits)
  qed
  have c2: "PostalDelivery cfg peer ?sent = Returns () ?peer1"
    using assms(2,3,10,11) by (simp add: PostalDelivery_ok)
  have g: "Get ?peer1 (nat (m_to mailH)) =
      (case sentMessages peer of
         [] \<Rightarrow> Fatal NullDereference
       | e0 # es \<Rightarrow>
           Returns (fst ?sent, fst (snd ?sent), take (m_length mailH) d)
             (peer\<lparr>boxes := (boxes peer)[nat (m_to mailH) := []],
                 sentMessages := (if m_from (mailHdr e0) = m_to mailH then es else e0 # es)\<rparr>))"
    using dst
    by (simp add: Get_def SynchList_Remove_def SynchList_GetFirst_def as_mail_def
        split: list.splits)
  have c3: "ReliableReceive cfg ?peer1 (m_to mailH) buf big =
              (case sentMessages peer of
                 [] \<Rightarrow> Fatal NullDereference
               | e0 # es \<Rightarrow>
                   if 0 < remainingParts entry
                   then Waiting (peer\<lparr>boxes := (boxes peer)[nat (m_to mailH) := []],
                          sentMessages := (if m_from (mailHdr e0) = m_to mailH then es else e0 # es),
                          network := network peer @ [?reply]\<rparr>)
                   else Returns (fst ?sent, fst (snd ?sent),
                            take (m_length mailH) d @ drop (m_length mailH) buf,
                            strcat big (take (m_length mailH) d @ drop (m_length mailH) buf))
                          (peer\<lparr>boxes := (boxes peer)[nat (m_to mailH) := []],
                          sentMessages := (if m_from (mailHdr e0) = m_to mailH then es else e0 # es),
                          network := network peer @ [?reply]\<rparr>))"
  proof (cases "sentMessages peer")
    case Nil
    then show ?thesis
      using assms(3,10) g
      by (subst ReliableReceive.simps) (simp add: numBoxes_def)
  next
    case (Cons e0 es)
    let ?peer2 = "peer\<lparr>boxes := (boxes peer)[nat (m_to mailH) := []],
                 sentMessages := (if m_from (mailHdr e0) = m_to mailH then es else e0 # es)\<rparr>"
    let ?peer3 = "?peer2\<lparr>network := network peer @ [?reply]\<rparr>"
    have s: "Send cfg ?peer2 (fst (ackHeaders (fst ?sent) (fst (snd ?sent))))
                 (snd (ackHeaders (fst ?sent) (fst (snd ?sent)))) ack = Returns () ?peer3"
      using assms(7,9,12)
      by (simp add: Send_ok ackHeaders_def strlen_ack length_ack numBoxes_def)
    have w: "ReliableReceive cfg ?peer3 (m_to mailH) b1 b2 = Waiting ?peer3" for b1 b2
      using assms(3,10) dst
      by (subst ReliableReceive.simps) (simp add: numBoxes_def Get_waits)
    show ?thesis
      using assms(2,3,10) g s w Cons
      by (subst ReliableReceive.simps) (simp add: numBoxes_def Let_def)
  qed
  have c4: "PostalDelivery cfg ?po3 ?reply = Returns () ?po4"
    using assms(7-9) by (simp add: PostalDelivery_ok numBoxes_def bx)
  have c5: "boxes ?po4 ! nat (m_from mailH) = boxes po ! nat (m_from mailH) @ [as_mail ?reply]"
    using src(1) by simp
  have c6: "boxes ?po4 ! 1 = boxes po ! 1"
    using src(2) by simp
  have c7: "(Receive cfg ?po4 1 = Waiting ?po4) = (2 \<le> length (boxes po) \<and> boxes po ! 1 = [])"
    using sm c6 by (simp add: Receive_box_1 split: list.splits)
  from c1 c2 c3 c4 c5 c6 c7 show ?thesis
    unfolding Let_def by (intro conjI)
qed

theorem reply_awaited_on_box_1_witness:
  "ReliableSend cfg10 office_hello route01 (header 3 2 3) (''hi'' @ [NUL]) =
     Waiting (office_hello\<lparr>sentMessages := [\<lparr>pktHdr = route01, mailHdr = header 3 2 3,
                  data = ''hi'' @ replicate 8 NUL, remainingParts = 0, attempts = 1\<rparr>],
        network := [(\<lparr>p_to = 1, p_from = 0, p_length = 19\<rparr>, header 3 2 3, ''hi'' @ [NUL])],
        timers := 1\<rparr>) \<and>
   PostalDelivery cfg10 (office_pending\<lparr>netAddr := 1\<rparr>)
       (\<lparr>p_to = 1, p_from = 0, p_length = 19\<rparr>, header 3 2 3, ''hi'' @ [NUL]) =
     Returns () (office_pending\<lparr>netAddr := 1, boxes := [[], [], [],
        [as_mail (\<lparr>p_to = 1, p_from = 0, p_length = 19\<rparr>, header 3 2 3, ''hi'' @ [NUL])]]\<rparr>) \<and>
   ReliableReceive cfg10 (office_pending\<lparr>netAddr := 1, boxes := [[], [], [],
        [as_mail (\<lparr>p_to = 1, p_from = 0, p_length = 19\<rparr>, header 3 2 3, ''hi'' @ [NUL])]]\<rparr>)
       3 [] [] =
     Returns (\<lparr>p_to = 1, p_from = 0, p_length = 19\<rparr>, header 3 2 3, ''hi'' @ [NUL], ''hi'' @ [NUL])
       (office_pending\<lparr>netAddr := 1,
          network := [(\<lparr>p_to = 0, p_from = 1, p_length = 24\<rparr>, header 2 3 8, ack)]\<rparr>) \<and>
   PostalDelivery cfg10
       (office_hello\<lparr>sentMessages := [\<lparr>pktHdr = route01, mailHdr = header 3 2 3,
                  data = ''hi'' @ replicate 8 NUL, remainingParts = 0, attempts = 1\<rparr>],
        network := [(\<lparr>p_to = 1, p_from = 0, p_length = 19\<rparr>, header 3 2 3, ''hi'' @ [NUL])],
        timers := 1\<rparr>)
       (\<lparr>p_to = 0, p_from = 1, p_length = 24\<rparr>, header 2 3 8, ack) =
     Returns ()
       (office_hello\<lparr>boxes := [[], [],
           [letter 2 0 ''HELLO'', as_mail (\<lparr>p_to = 0, p_from = 1, p_length = 24\<rparr>, header 2 3 8, ack)],
           []],
        sentMessages := [\<lparr>pktHdr = route01, mailHdr = header 3 2 3,
                  data = ''hi'' @ replicate 8 NUL, remainingParts = 0, attempts = 1\<rparr>],
        network := [(\<lparr>p_to = 1, p_from = 0, p_length = 19\<rparr>, header 3 2 3, ''hi'' @ [NUL])],
        timers := 1\<rparr>) \<and>
   Receive cfg10
       (office_hello\<lparr>boxes := [[], [],
           [letter 2 0 ''HELLO'', as_mail (\<lparr>p_to = 0, p_from = 1, p_length = 24\<rparr>, header 2 3 8, ack)],
           []],
        sentMessages := [\<lparr>pktHdr = route01, mailHdr = header 3 2 3,
                  data = ''hi'' @ replicate 8 NUL, remainingParts = 0, attempts = 1\<rparr>],
        network := [(\<lparr>p_to = 1, p_from = 0, p_length = 19\<rparr>, header 3 2 3, ''hi'' @ [NUL])],
        timers := 1\<rparr>) 1 =
     Waiting
       (office_hello\<lparr>boxes := [[], [],
           [letter 2 0 ''HELLO'', as_mail (\<lparr>p_to = 0, p_from = 1, p_length = 24\<rparr>, header 2 3 8, ack)],
           []],
        sentMessages := [\<lparr>pktHdr = route01, mailHdr = header 3 2 3,
                  data = ''hi'' @ replicate 8 NUL, remainingParts = 0, attempts = 1\<rparr>],
        network := [(\<lparr>p_to = 1, p_from = 0, p_length = 19\<rparr>, header 3 2 3, ''hi'' @ [NUL])],
        timers := 1\<rparr>)"
proof -
  let ?entry = "\<lparr>pktHdr = route01, mailHdr = header 3 2 3,
      data = strncpy (''hi'' @ [NUL]) (MaxMailSize cfg10), remainingParts = 0, attempts = 1\<rparr>"
  have h1: "strlen (''hi'' @ [NUL]) \<le> MaxMailSize cfg10"
    by (simp add: strlen_def cstring_def NUL_def cfg10_def)
  have h2: "m_length (header 3 2 3) \<le> MaxMailSize cfg10"
    by (simp add: header_def cfg10_def)
  have h3: "0 \<le> m_to (header 3 2 3)"
    by (simp add: header_def)
  have h4: "m_to (header 3 2 3) < numBoxes office_hello"
    by (simp add: header_def numBoxes_def office_hello_def office4_def)
  have h5: "backup cfg10 office_hello \<lparr>pktHdr = route01, mailHdr = header 3 2 3,
        data = strncpy (''hi'' @ [NUL]) (MaxMailSize cfg10), remainingParts = 0, attempts = 0\<rparr> =
      Inr (?entry, office_hello\<lparr>sentMessages := [?entry]\<rparr>)"
    by (simp add: backup_empty office_hello_def office4_def)
  have h6: "m_from (header 3 2 3) \<noteq> 1"
    by (simp add: header_def)
  have h7: "0 \<le> m_from (header 3 2 3)"
    by (simp add: header_def)
  have h8: "m_from (header 3 2 3) < numBoxes office_hello"
    by (simp add: header_def numBoxes_def office_hello_def office4_def)
  have h9: "8 \<le> MaxMailSize cfg10"
    by (simp add: cfg10_def)
  have h10: "m_to (header 3 2 3) < numBoxes (office_pending\<lparr>netAddr := 1\<rparr>)"
    by (simp add: header_def numBoxes_def office_pending_def office4_def)
  have h11: "boxes (office_pending\<lparr>netAddr := 1\<rparr>) ! nat (m_to (header 3 2 3)) = []"
    by (simp add: header_def office_pending_def office4_def numeral_3_eq_3)
  have h12: "m_from (header 3 2 3) < numBoxes (office_pending\<lparr>netAddr := 1\<rparr>)"
    by (simp add: header_def numBoxes_def office_pending_def office4_def)
  note w = reply_awaited_on_box_1 [OF h1 h2 h3 h4 h5 h6 h7 h8 h9 h10 h11 h12,
      where buf = "[]" and big = "[]", unfolded Let_def]
  have a: "ReliableSend cfg10 office_hello route01 (header 3 2 3) (''hi'' @ [NUL]) =
     Waiting (office_hello\<lparr>sentMessages := [\<lparr>pktHdr = route01, mailHdr = header 3 2 3,
                  data = ''hi'' @ replicate 8 NUL, remainingParts = 0, attempts = 1\<rparr>],
        network := [(\<lparr>p_to = 1, p_from = 0, p_length = 19\<rparr>, header 3 2 3, ''hi'' @ [NUL])],
        timers := 1\<rparr>)"
    using w [THEN conjunct1]
    by (simp add: office_hello_def office4_def header_def cfg10_def route01_def strncpy_def
        cstring_def NUL_def)
  have b: "PostalDelivery cfg10 (office_pending\<lparr>netAddr := 1\<rparr>)
       (\<lparr>p_to = 1, p_from = 0, p_length = 19\<rparr>, header 3 2 3, ''hi'' @ [NUL]) =
     Returns () (office_pending\<lparr>netAddr := 1, boxes := [[], [], [],
        [as_mail (\<lparr>p_to = 1, p_from = 0, p_length = 19\<rparr>, header 3 2 3, ''hi'' @ [NUL])]]\<rparr>)"
    using w [THEN conjunct2, THEN conjunct1]
    by (simp add: office_hello_def office_pending_def office4_def header_def cfg10_def
        route01_def numeral_3_eq_3)
  have c: "ReliableReceive cfg10 (office_pending\<lparr>netAddr := 1, boxes := [[], [], [],
        [as_mail (\<lparr>p_to = 1, p_from = 0, p_length = 19\<rparr>, header 3 2 3, ''hi'' @ [NUL])]]\<rparr>)
       3 [] [] =
     Returns (\<lparr>p_to = 1, p_from = 0, p_length = 19\<rparr>, header 3 2 3, ''hi'' @ [NUL], ''hi'' @ [NUL])
       (office_pending\<lparr>netAddr := 1,
          network := [(\<lparr>p_to = 0, p_from = 1, p_length = 24\<rparr>, header 2 3 8, ack)]\<rparr>)"
    using w [THEN conjunct2, THEN conjunct2, THEN conjunct1]
    by (simp add: office_hello_def office_pending_def office4_def header_def cfg10_def
        route01_def numeral_3_eq_3 backup_of_def strcat_def cstring_def NUL_def)
  have d: "PostalDelivery cfg10
       (office_hello\<lparr>sentMessages := [\<lparr>pktHdr = route01, mailHdr = header 3 2 3,
                  data = ''hi'' @ replicate 8 NUL, remainingParts = 0, attempts = 1\<rparr>],
        network := [(\<lparr>p_to = 1, p_from = 0, p_length = 19\<rparr>, header 3 2 3, ''hi'' @ [NUL])],
        timers := 1\<rparr>)
       (\<lparr>p_to = 0, p_from = 1, p_length = 24\<rparr>, header 2 3 8, ack) =
     Returns ()
       (office_hello\<lparr>boxes := [[], [],
           [letter 2 0 ''HELLO'', as_mail (\<lparr>p_to = 0, p_from = 1, p_length = 24\<rparr>, header 2 3 8, ack)],
           []],
        sentMessages := [\<lparr>pktHdr = route01, mailHdr = header 3 2 3,
                  data = ''hi'' @ replicate 8 NUL, remainingParts = 0, attempts = 1\<rparr>],
        network := [(\<lparr>p_to = 1, p_from = 0, p_length = 19\<rparr>, header 3 2 3, ''hi'' @ [NUL])],
        timers := 1\<rparr>)"
    using w [THEN conjunct2, THEN conjunct2, THEN conjunct2, THEN conjunct1]
    by (simp add: office_hello_def office_pending_def office4_def header_def cfg10_def
        route01_def strncpy_def cstring_def NUL_def numeral_2_eq_2)
  have e: "Receive cfg10
       (office_hello\<lparr>boxes := [[], [],
           [letter 2 0 ''HELLO'', as_mail (\<lparr>p_to = 0, p_from = 1, p_length = 24\<rparr>, header 2 3 8, ack)],
           []],
        sentMessages := [\<lparr>pktHdr = route01, mailHdr = header 3 2 3,
                  data = ''hi'' @ replicate 8 NUL, remainingParts = 0, attempts = 1\<rparr>],
        network := [(\<lparr>p_to = 1, p_from = 0, p_length = 19\<rparr>, header 3 2 3, ''hi'' @ [NUL])],
        timers := 1\<rparr>) 1 =
     Waiting
       (office_hello\<lparr>boxes := [[], [],
           [letter 2 0 ''HELLO'', as_mail (\<lparr>p_to = 0, p_from = 1, p_length = 24\<rparr>, header 2 3 8, ack)],
           []],
        sentMessages := [\<lparr>pktHdr = route01, mailHdr = header 3 2 3,
                  data = ''hi'' @ replicate 8 NUL, remainingParts = 0, attempts = 1\<rparr>],
        network := [(\<lparr>p_to = 1, p_from = 0, p_length = 19\<rparr>, header 3 2 3, ''hi'' @ [NUL])],
        timers := 1\<rparr>)"
    using w [THEN conjunct2, THEN conjunct2, THEN conjunct2, THEN conjunct2, THEN conjunct2,
        THEN conjunct2]
    by (simp add: office_hello_def office_pending_def office4_def header_def cfg10_def
        route01_def strncpy_def cstring_def NUL_def numeral_2_eq_2)
  from a b c d e show ?thesis
    by (intro conjI)
qed

subsection \<open>Fragmentation and reassembly\<close>

lemma fragment_step:
  assumes "i < n"
  shows "fragment cfg po pktH mailH d i n r =
     fragment cfg (po\<lparr>sentMessages := sentMessages po @
          [\<lparr>pktHdr = pktH, mailHdr = mailH\<lparr>m_length := MaxMailSize cfg\<rparr>,
            data = piece cfg d i, remainingParts = r, attempts = 0\<rparr>]\<rparr>)
       pktH (mailH\<lparr>m_length := MaxMailSize cfg\<rparr>) d (Suc i) n (r - 1)"
  using assms
  by (subst fragment.simps) (simp add: Mail_new_def piece_def SynchList_Append_def Let_def)

lemma fragment_loop:
  "n - i = k \<Longrightarrow>
   fragment cfg po pktH mailH d i n r =
     Inr (po\<lparr>sentMessages := sentMessages po @
        map (\<lambda>j. \<lparr>pktHdr = pktH, mailHdr = mailH\<lparr>m_length := MaxMailSize cfg\<rparr>,
                   data = piece cfg d j, remainingParts = r - int (j - i), attempts = 0\<rparr>)
          [i..<n]\<rparr>)"
proof (induction k arbitrary: i po mailH r)
  case 0
  then show ?case
    by (subst fragment.simps) simp
next
  case (Suc k)
  then have lt: "i < n" and k: "n - Suc i = k" by simp_all
  have m: "map (\<lambda>j. \<lparr>pktHdr = pktH, mailHdr = mailH\<lparr>m_length := MaxMailSize cfg\<rparr>,
                   data = piece cfg d j, remainingParts = r - 1 - int (j - Suc i), attempts = 0\<rparr>)
          [Suc i..<n] =
        map (\<lambda>j. \<lparr>pktHdr = pktH, mailHdr = mailH\<lparr>m_length := MaxMailSize cfg\<rparr>,
                   data = piece cfg d j, remainingParts = r - int (j - i), attempts = 0\<rparr>)
          [Suc i..<n]"
    by (rule map_cong) (auto simp: of_nat_diff)
  show ?case
    using lt m by (simp add: fragment_step Suc.IH [OF k] upt_conv_Cons)
qed

lemma cstring_take: "cstring (take n s) = take n (cstring s)"
  unfolding cstring_def by (induction s arbitrary: n) (auto simp: take_Cons split: nat.splits)

lemma cstring_drop: "k \<le> strlen s \<Longrightarrow> cstring (drop k s) = drop k (cstring s)"
  unfolding cstring_def strlen_def
  by (induction s arbitrary: k) (auto simp: drop_Cons split: nat.splits if_splits)

lemma cstring_NUL: "cstring (s @ NUL # t) = cstring s"
  unfolding cstring_def by (induction s) auto

lemma cstring_no_NUL: "NUL \<notin> set (cstring s)"
  by (auto simp: cstring_def dest: set_takeWhileD)

lemma cstring_id: "NUL \<notin> set s \<Longrightarrow> cstring s = s"
  unfolding cstring_def by (induction s) auto

lemma cstring_append: "cstring (cstring s @ t) = cstring s @ cstring t"
proof -
  have "takeWhile (\<lambda>c. c \<noteq> NUL) (cstring s @ t) = cstring s @ takeWhile (\<lambda>c. c \<noteq> NUL) t"
    using cstring_no_NUL [of s] by (intro takeWhile_append2) auto
  then show ?thesis by (simp add: cstring_def)
qed

lemma cstring_replicate: "cstring (replicate n NUL) = []"
  unfolding cstring_def by (cases n) auto

lemma cstring_until_NUL: "NUL \<in> set s \<Longrightarrow> cstring (s @ t) = cstring s"
  unfolding cstring_def by (induction s) auto

lemma cstring_strcat: "cstring (strcat a b) = cstring a @ cstring b"
proof -
  have "cstring (cstring a @ cstring b @ [NUL]) = cstring a @ cstring (cstring b @ [NUL])"
    by (rule cstring_append)
  also have "cstring (cstring b @ [NUL]) = cstring b @ cstring [NUL]"
    by (rule cstring_append)
  finally show ?thesis
    by (simp add: strcat_def cstring_def)
qed

lemma pad_length: "length s < n \<Longrightarrow> length (s @ replicate (n - length s) NUL) = n"
  by simp

lemma pad_has_NUL: "length s < n \<Longrightarrow> NUL \<in> set (s @ replicate (n - length s) NUL)"
  by simp

lemma strncpy_short:
  "strlen s < n \<Longrightarrow> strncpy s n = cstring s @ replicate (n - strlen s) NUL"
  by (simp add: strncpy_def strlen_def)

lemma piece_eq:
  assumes "2 \<le> MaxMailSize cfg" and "i * (MaxMailSize cfg - 1) \<le> strlen d"
  shows "piece cfg d i =
     take (MaxMailSize cfg - 1) (drop (i * (MaxMailSize cfg - 1)) (cstring d)) @
     replicate (MaxMailSize cfg -
        length (take (MaxMailSize cfg - 1) (drop (i * (MaxMailSize cfg - 1)) (cstring d)))) NUL"
proof -
  let ?c = "MaxMailSize cfg - 1"
  let ?s = "take ?c (drop (i * ?c) (cstring d))"
  have c: "cstring (take ?c (drop (i * ?c) d) @ [NUL]) = ?s"
    using assms(2) by (simp add: cstring_NUL cstring_take cstring_drop)
  have "length ?s \<le> ?c" by simp
  with assms(1) have lt: "length ?s < MaxMailSize cfg" by linarith
  have "strlen (take ?c (drop (i * ?c) d) @ [NUL]) = length ?s"
    using c by (simp add: strlen_def)
  with lt c show ?thesis
    unfolding piece_def by (subst strncpy_short) simp_all
qed

lemma piece_props:
  assumes "2 \<le> MaxMailSize cfg" and "i * (MaxMailSize cfg - 1) \<le> strlen d"
  shows "length (piece cfg d i) = MaxMailSize cfg"
    and "cstring (piece cfg d i) =
           take (MaxMailSize cfg - 1) (drop (i * (MaxMailSize cfg - 1)) (cstring d))"
    and "NUL \<in> set (piece cfg d i)"
proof -
  let ?c = "MaxMailSize cfg - 1"
  define s where "s = take ?c (drop (i * ?c) (cstring d))"
  have "length s \<le> ?c" by (simp add: s_def)
  with assms(1) have lt: "length s < MaxMailSize cfg" by linarith
  have eq: "piece cfg d i = s @ replicate (MaxMailSize cfg - length s) NUL"
    unfolding s_def using assms by (rule piece_eq)
  from lt show "length (piece cfg d i) = MaxMailSize cfg"
    unfolding eq by (rule pad_length)
  have "NUL \<notin> set s"
    unfolding s_def using cstring_no_NUL [of d] by (meson in_set_dropD in_set_takeD)
  then have "s = cstring s"
    by (simp add: cstring_id)
  then have "cstring (s @ replicate (MaxMailSize cfg - length s) NUL) =
      s @ cstring (replicate (MaxMailSize cfg - length s) NUL)"
    using cstring_append [of s "replicate (MaxMailSize cfg - length s) NUL"] by simp
  then show "cstring (piece cfg d i) =
           take (MaxMailSize cfg - 1) (drop (i * (MaxMailSize cfg - 1)) (cstring d))"
    unfolding eq by (simp add: cstring_replicate s_def)
  from lt show "NUL \<in> set (piece cfg d i)"
    unfolding eq by (rule pad_has_NUL)
qed

lemma concat_slices:
  "0 < c \<Longrightarrow> concat (map (\<lambda>i. take c (drop (i * c) s)) [0..<n]) = take (n * c) s"
proof (induction n)
  case 0
  then show ?case by simp
next
  case (Suc n)
  have "take (n * c) s @ take c (drop (n * c) s) = take (n * c + c) s"
    by (simp add: take_add)
  with Suc show ?case by (simp add: add.commute)
qed

lemma divRoundUp_bounds:
  assumes "0 < c" and "0 < n"
  shows "(divRoundUp n c - 1) * c < n" and "n \<le> divRoundUp n c * c"
proof -
  define q where "q = n div c"
  define m where "m = n mod c"
  have n: "n = q * c + m"
    by (simp add: q_def m_def)
  have m: "m < c"
    using assms(1) by (simp add: m_def)
  have up: "(q + 1) * c = q * c + c"
    by (simp add: algebra_simps)
  show "n \<le> divRoundUp n c * c"
  proof (cases "m = 0")
    case True
    then have "divRoundUp n c = q"
      by (simp add: divRoundUp_def q_def m_def)
    with n True show ?thesis by simp
  next
    case False
    then have "divRoundUp n c = q + 1"
      by (simp add: divRoundUp_def q_def m_def)
    with n m up show ?thesis by simp
  qed
  show "(divRoundUp n c - 1) * c < n"
  proof (cases "m = 0")
    case True
    then have d: "divRoundUp n c = q"
      by (simp add: divRoundUp_def q_def m_def)
    from True n assms(2) have "0 < q"
      by (cases q) simp_all
    then obtain q' where q': "q = Suc q'"
      by (cases q) simp_all
    with n True assms(1) d show ?thesis by simp
  next
    case False
    then have "divRoundUp n c = q + 1"
      by (simp add: divRoundUp_def q_def m_def)
    with n False show ?thesis by simp
  qed
qed

text \<open>
  For a string longer than \<^verbatim>\<open>MaxMailSize\<close>: all pieces are appended to the in-flight list
  before the handler transmits anything; their number is the quotient rounded up; piece
  \<open>i\<close> carries the characters from offset \<open>i * (MaxMailSize - 1)\<close>, at most
  \<open>MaxMailSize - 1\<close> of them; the pieces concatenated are the string; and the counters run
  from the number of pieces minus one down to 0.
\<close>

lemma fragmentation_above_MaxMailSize:
  assumes "2 \<le> MaxMailSize cfg" and "MaxMailSize cfg < strlen d"
  shows "ReliableSend cfg po pktH mailH d =
           TimeOutHandler cfg (po\<lparr>sentMessages := sentMessages po @
              map (chunk_mail cfg pktH mailH d) [0..<pieces cfg d]\<rparr>)"
    and "(pieces cfg d - 1) * (MaxMailSize cfg - 1) < strlen d"
    and "strlen d \<le> pieces cfg d * (MaxMailSize cfg - 1)"
    and "map (\<lambda>m. cstring (data m)) (map (chunk_mail cfg pktH mailH d) [0..<pieces cfg d]) =
           map (\<lambda>i. take (MaxMailSize cfg - 1) (drop (i * (MaxMailSize cfg - 1)) (cstring d)))
             [0..<pieces cfg d]"
    and "concat (map (\<lambda>m. cstring (data m)) (map (chunk_mail cfg pktH mailH d) [0..<pieces cfg d]))
           = cstring d"
    and "map remainingParts (map (chunk_mail cfg pktH mailH d) [0..<pieces cfg d]) =
           map (\<lambda>i. int (pieces cfg d) - 1 - int i) [0..<pieces cfg d]"
proof -
  let ?c = "MaxMailSize cfg - 1"
  let ?n = "pieces cfg d"
  from assms have c: "0 < ?c" and n: "0 < strlen d" by simp_all
  show lo: "(?n - 1) * ?c < strlen d"
    unfolding pieces_def using c n by (rule divRoundUp_bounds(1))
  show hi: "strlen d \<le> ?n * ?c"
    unfolding pieces_def using c n by (rule divRoundUp_bounds(2))
  have frag: "fragment cfg po pktH mailH d 0 ?n (int ?n - 1) =
      Inr (po\<lparr>sentMessages := sentMessages po @ map (chunk_mail cfg pktH mailH d) [0..<?n]\<rparr>)"
    using fragment_loop [of ?n 0 ?n cfg po pktH mailH d "int ?n - 1"]
    by (simp add: chunk_mail_def)
  show "ReliableSend cfg po pktH mailH d =
           TimeOutHandler cfg (po\<lparr>sentMessages := sentMessages po @
              map (chunk_mail cfg pktH mailH d) [0..<?n]\<rparr>)"
    using assms frag [unfolded pieces_def]
    by (subst ReliableSend.simps) (simp add: Let_def pieces_def)
  have within: "i * ?c \<le> strlen d" if "i < ?n" for i
  proof -
    from that have "i \<le> ?n - 1" by simp
    then have "i * ?c \<le> (?n - 1) * ?c" by (rule mult_le_mono1)
    also note lo
    finally show ?thesis by (rule less_imp_le)
  qed
  show slices: "map (\<lambda>m. cstring (data m)) (map (chunk_mail cfg pktH mailH d) [0..<?n]) =
           map (\<lambda>i. take ?c (drop (i * ?c) (cstring d))) [0..<?n]"
    using within assms(1) by (simp add: chunk_mail_def piece_props(2))
  have "concat (map (\<lambda>i. take ?c (drop (i * ?c) (cstring d))) [0..<?n]) = take (?n * ?c) (cstring d)"
    using c by (rule concat_slices)
  with hi show "concat (map (\<lambda>m. cstring (data m)) (map (chunk_mail cfg pktH mailH d) [0..<?n]))
           = cstring d"
    unfolding slices by (simp add: strlen_def)
  show "map remainingParts (map (chunk_mail cfg pktH mailH d) [0..<?n]) =
           map (\<lambda>i. int ?n - 1 - int i) [0..<?n]"
    by (simp add: chunk_mail_def)
qed

text \<open>With \<^verbatim>\<open>MaxMailSize = 10\<close>, 25 characters make three pieces with counters 2, 1, 0.\<close>

lemma twentyfive_bytes_make_three_chunks:
  "strlen twentyfive = 25 \<and> pieces cfg10 twentyfive = 3 \<and>
   map remainingParts (map (chunk_mail cfg10 route01 (header 2 1 26) twentyfive)
      [0..<pieces cfg10 twentyfive]) = [2, 1, 0] \<and>
   map (\<lambda>m. cstring (data m)) (map (chunk_mail cfg10 route01 (header 2 1 26) twentyfive)
      [0..<pieces cfg10 twentyfive]) = [''abcdefghi'', ''jklmnopqr'', ''stuvwxy'']"
proof -
  have l: "strlen twentyfive = 25"
    by (simp add: strlen_def cstring_def twentyfive_def NUL_def)
  have c: "cstring twentyfive = ''abcdefghijklmnopqrstuvwxy''"
    by (simp add: cstring_def twentyfive_def NUL_def)
  have p: "pieces cfg10 twentyfive = 3"
    by (simp add: pieces_def divRoundUp_def l cfg10_def)
  have h: "2 \<le> MaxMailSize cfg10" "MaxMailSize cfg10 < strlen twentyfive"
    by (simp_all add: cfg10_def l)
  have u: "[0..<3] = [0, 1, 2]"
    by (simp add: upt_rec)
  have m: "MaxMailSize cfg10 = 10"
    by (simp add: cfg10_def)
  have r: "remainingParts (chunk_mail cfg10 route01 (header 2 1 26) twentyfive i) = 2 - int i" for i
    by (simp add: chunk_mail_def p)
  have s: "cstring (data (chunk_mail cfg10 route01 (header 2 1 26) twentyfive i)) =
      take 9 (drop (i * 9) ''abcdefghijklmnopqrstuvwxy'')" if "i \<le> 2" for i
    using piece_props(2) [OF h(1), of i twentyfive] that by (simp add: chunk_mail_def l c m)
  show ?thesis
    unfolding p u by (simp add: l r s)
qed

text \<open>
  \<^verbatim>\<open>ReliableReceive\<close> on a box that holds the fragments in order, each with a terminator
  among its bytes, all but the last with parts remaining: it returns, and the string in
  \<^verbatim>\<open>bigBuffer\<close> has grown by the strings of the fragments, in order. The first in-flight
  mail of the receiver must exist and must not have this box as its source, so that
  \<^verbatim>\<open>Get\<close> neither faults nor removes it.
\<close>

lemma ReliableReceive_concatenates:
  assumes "0 \<le> box" and "8 \<le> MaxMailSize cfg"
  shows "box < numBoxes po \<Longrightarrow> boxes po ! nat box = ms \<Longrightarrow> ms \<noteq> [] \<Longrightarrow>
    \<forall>m \<in> set ms. m_length (mailHdr m) \<le> MaxMailSize cfg \<and> 0 \<le> m_from (mailHdr m) \<and>
       m_from (mailHdr m) < numBoxes po \<and> m_to (mailHdr m) = box \<and>
       NUL \<in> set (take (m_length (mailHdr m)) (data m)) \<Longrightarrow>
    \<forall>m \<in> set (butlast ms). 0 < m_remainingParts (mailHdr m) \<Longrightarrow>
    m_remainingParts (mailHdr (last ms)) \<le> 0 \<Longrightarrow>
    sentMessages po = e0 # es \<Longrightarrow> m_from (mailHdr e0) \<noteq> box \<Longrightarrow>
    \<exists>buf' big' po'.
       ReliableReceive cfg po box buf big =
         Returns (pktHdr (last ms), mailHdr (last ms), buf', big') po' \<and>
       cstring big' = cstring big @
         concat (map (\<lambda>m. cstring (take (m_length (mailHdr m)) (data m))) ms) \<and>
       boxes po' ! nat box = [] \<and>
       length (network po') = length (network po) + length ms \<and>
       sentMessages po' = sentMessages po"
proof (induction ms arbitrary: po buf big)
  case Nil
  then show ?case by simp
next
  case (Cons m ms)
  let ?bytes = "take (m_length (mailHdr m)) (data m)"
  let ?po1 = "po\<lparr>boxes := (boxes po)[nat box := ms]\<rparr>"
  let ?aP = "fst (ackHeaders (pktHdr m) (mailHdr m))"
  let ?aM = "snd (ackHeaders (pktHdr m) (mailHdr m))"
  let ?po2 = "?po1\<lparr>network := network ?po1 @
        [(?aP\<lparr>p_from := netAddr ?po1, p_length := m_length ?aM + sizeofMailHeader cfg\<rparr>,
          ?aM, take (m_length ?aM) ack)]\<rparr>"
  let ?buf1 = "?bytes @ drop (m_length (mailHdr m)) buf"
  let ?big1 = "strcat big ?buf1"
  from Cons.prems(4) have m: "m_length (mailHdr m) \<le> MaxMailSize cfg" "0 \<le> m_from (mailHdr m)"
    "m_from (mailHdr m) < numBoxes po" "m_to (mailHdr m) = box" "NUL \<in> set ?bytes"
    by simp_all
  have lt: "nat box < length (boxes po)"
    using assms(1) Cons.prems(1) unfolding numBoxes_def by linarith
  have "Get po (nat box) = Returns (pktHdr m, mailHdr m, ?bytes)
       (po\<lparr>boxes := (boxes po)[nat box := ms],
           sentMessages := (if m_from (mailHdr e0) = m_to (mailHdr m) then es else e0 # es)\<rparr>)"
    using Cons.prems(2) Cons.prems(7) by (rule Get_nonempty)
  then have g: "Get po (nat box) = Returns (pktHdr m, mailHdr m, ?bytes) ?po1"
    using m(4) Cons.prems(7,8) by simp
  have nb: "numBoxes ?po1 = numBoxes po"
    by (simp add: numBoxes_def)
  have s: "Send cfg ?po1 ?aP ?aM ack = Returns () ?po2"
    using m(2,3) assms(2) nb by (intro Send_ok) (simp_all add: ackHeaders_def strlen_ack)
  have cb: "cstring ?buf1 = cstring ?bytes"
    using m(5) by (rule cstring_until_NUL)
  have cbig: "cstring ?big1 = cstring big @ cstring ?bytes"
    by (simp only: cstring_strcat cb)
  show ?case
  proof (cases "ms = []")
    case True
    with Cons.prems(6) have "\<not> 0 < m_remainingParts (mailHdr m)" by simp
    then have "ReliableReceive cfg po box buf big =
        Returns (pktHdr m, mailHdr m, ?buf1, ?big1) ?po2"
      using assms(1) Cons.prems(1) g s m(1)
      by (subst ReliableReceive.simps) (simp add: Let_def)
    moreover have "boxes ?po2 ! nat box = []"
      using lt True by simp
    ultimately show ?thesis
      using True cbig by simp
  next
    case False
    then have pos: "0 < m_remainingParts (mailHdr m)"
      using Cons.prems(5) by simp
    have "\<exists>buf' big' po'.
       ReliableReceive cfg ?po2 box ?buf1 ?big1 =
         Returns (pktHdr (last ms), mailHdr (last ms), buf', big') po' \<and>
       cstring big' = cstring ?big1 @
         concat (map (\<lambda>m. cstring (take (m_length (mailHdr m)) (data m))) ms) \<and>
       boxes po' ! nat box = [] \<and>
       length (network po') = length (network ?po2) + length ms \<and>
       sentMessages po' = sentMessages ?po2"
    proof (rule Cons.IH)
      show "box < numBoxes ?po2" using Cons.prems(1) by (simp add: numBoxes_def)
      show "boxes ?po2 ! nat box = ms" using lt by simp
      show "ms \<noteq> []" by (rule False)
      show "\<forall>m\<in>set ms. m_length (mailHdr m) \<le> MaxMailSize cfg \<and> 0 \<le> m_from (mailHdr m) \<and>
         m_from (mailHdr m) < numBoxes ?po2 \<and> m_to (mailHdr m) = box \<and>
         NUL \<in> set (take (m_length (mailHdr m)) (data m))"
        using Cons.prems(4) by (simp add: numBoxes_def)
      show "\<forall>m\<in>set (butlast ms). 0 < m_remainingParts (mailHdr m)"
        using Cons.prems(5) False by simp
      show "m_remainingParts (mailHdr (last ms)) \<le> 0"
        using Cons.prems(6) False by simp
      show "sentMessages ?po2 = e0 # es" using Cons.prems(7) by simp
      show "m_from (mailHdr e0) \<noteq> box" by (rule Cons.prems(8))
    qed
    then obtain buf' big' po' where r:
      "ReliableReceive cfg ?po2 box ?buf1 ?big1 =
         Returns (pktHdr (last ms), mailHdr (last ms), buf', big') po'"
      "cstring big' = cstring ?big1 @
         concat (map (\<lambda>m. cstring (take (m_length (mailHdr m)) (data m))) ms)"
      "boxes po' ! nat box = []"
      "length (network po') = length (network ?po2) + length ms"
      "sentMessages po' = sentMessages ?po2"
      by blast
    have "last ms \<in> set ms" using False by simp
    with Cons.prems(4) have ll: "m_length (mailHdr (last ms)) \<le> MaxMailSize cfg" by simp
    have "ReliableReceive cfg po box buf big =
        Returns (pktHdr (last ms), mailHdr (last ms), buf', big') po'"
      using assms(1) Cons.prems(1) g s pos r(1) ll
      by (subst ReliableReceive.simps) (simp add: Let_def)
    with r(2-5) cbig False show ?thesis by simp
  qed
qed

lemma arrived_chunk:
  "as_mail (on_the_wire cfg addr (chunk_mail cfg pktH mailH d i)) =
     \<lparr>pktHdr = pktH\<lparr>p_from := addr, p_length := MaxMailSize cfg + sizeofMailHeader cfg\<rparr>,
      mailHdr = mailH\<lparr>m_length := MaxMailSize cfg,
                      m_remainingParts := int (pieces cfg d) - 1 - int i\<rparr>,
      data = take (MaxMailSize cfg) (piece cfg d i), remainingParts = 0, attempts = 0\<rparr>"
  by (simp add: as_mail_def on_the_wire_def chunk_mail_def)

text \<open>
  End to end, for a string longer than \<^verbatim>\<open>MaxMailSize\<close>: the packets that the handler
  transmits for the pieces, delivered in order by the peer's dispatcher and received by
  \<^verbatim>\<open>ReliableReceive\<close>, rebuild the string in \<^verbatim>\<open>bigBuffer\<close>; one acknowledgement is sent
  per piece.
\<close>

lemma reassembly_at_the_peer:
  assumes "2 \<le> MaxMailSize cfg" and "8 \<le> MaxMailSize cfg" and "MaxMailSize cfg < strlen d"
    and "0 \<le> m_to mailH" and "m_to mailH < numBoxes peer"
    and "boxes peer ! nat (m_to mailH) = []"
    and "0 \<le> m_from mailH" and "m_from mailH < numBoxes peer"
    and "sentMessages peer = e0 # es" and "m_from (mailHdr e0) \<noteq> m_to mailH"
  shows "\<exists>peer1 peer2 pktR mailR buf' big'.
     deliver_all cfg peer (map (on_the_wire cfg addr)
        (map (chunk_mail cfg pktH mailH d) [0..<pieces cfg d])) = Returns () peer1 \<and>
     ReliableReceive cfg peer1 (m_to mailH) buf big = Returns (pktR, mailR, buf', big') peer2 \<and>
     cstring big' = cstring big @ cstring d \<and>
     m_remainingParts mailR = 0 \<and>
     length (network peer2) = length (network peer) + pieces cfg d"
proof -
  let ?c = "MaxMailSize cfg - 1"
  let ?n = "pieces cfg d"
  let ?b = "m_to mailH"
  let ?f = "\<lambda>i. as_mail (on_the_wire cfg addr (chunk_mail cfg pktH mailH d i))"
  let ?pks = "map (on_the_wire cfg addr) (map (chunk_mail cfg pktH mailH d) [0..<?n])"
  let ?ms = "map ?f [0..<?n]"
  let ?peer1 = "peer\<lparr>boxes := (boxes peer)[nat ?b := boxes peer ! nat ?b @ map as_mail ?pks]\<rparr>"
  note frag = fragmentation_above_MaxMailSize [OF assms(1,3)]
  have lo: "(?n - 1) * ?c < strlen d" by (rule frag(2))
  have npos: "0 < ?n"
  proof (rule ccontr)
    assume "\<not> 0 < ?n"
    then have "?n = 0" by simp
    with frag(3) assms(3) show False by simp
  qed
  have within: "i * ?c \<le> strlen d" if "i < ?n" for i
  proof -
    from that have "i \<le> ?n - 1" by simp
    then have "i * ?c \<le> (?n - 1) * ?c" by (rule mult_le_mono1)
    also note lo
    finally show ?thesis by (rule less_imp_le)
  qed
  have ms: "map as_mail ?pks = ?ms" by simp
  have lt: "nat ?b < length (boxes peer)"
    using assms(4,5) unfolding numBoxes_def by linarith
  have d1: "deliver_all cfg peer ?pks = Returns () ?peer1"
    using assms(4,5)
    by (rule deliver_all_appends) (simp add: on_the_wire_def chunk_mail_def)
  have box: "boxes ?peer1 ! nat ?b = ?ms"
    using lt assms(6) by simp
  have ne: "?ms \<noteq> []" using npos by simp
  have bytes: "take (m_length (mailHdr (?f i))) (data (?f i)) = piece cfg d i" if "i < ?n" for i
    using piece_props(1) [OF assms(1) within [OF that]] by (simp add: arrived_chunk)
  have each: "\<forall>m \<in> set ?ms. m_length (mailHdr m) \<le> MaxMailSize cfg \<and> 0 \<le> m_from (mailHdr m) \<and>
       m_from (mailHdr m) < numBoxes ?peer1 \<and> m_to (mailHdr m) = ?b \<and>
       NUL \<in> set (take (m_length (mailHdr m)) (data m))"
  proof
    fix m assume "m \<in> set ?ms"
    then obtain i where i: "i < ?n" "m = ?f i" by auto
    have "NUL \<in> set (take (m_length (mailHdr (?f i))) (data (?f i)))"
      unfolding bytes [OF i(1)] using assms(1) within [OF i(1)] by (rule piece_props(3))
    moreover have "m_length (mailHdr (?f i)) \<le> MaxMailSize cfg" "m_from (mailHdr (?f i)) = m_from mailH"
      "m_to (mailHdr (?f i)) = ?b"
      by (simp_all add: arrived_chunk)
    ultimately show "m_length (mailHdr m) \<le> MaxMailSize cfg \<and> 0 \<le> m_from (mailHdr m) \<and>
       m_from (mailHdr m) < numBoxes ?peer1 \<and> m_to (mailHdr m) = ?b \<and>
       NUL \<in> set (take (m_length (mailHdr m)) (data m))"
      using assms(7,8) i(2) by (simp add: numBoxes_def)
  qed
  have upt: "[0..<?n] = [0..<?n - 1] @ [?n - 1]"
    using npos by (metis Suc_diff_1 upt_Suc_append zero_le)
  have bl: "butlast ?ms = map ?f [0..<?n - 1]"
    by (subst upt) simp
  have la: "last ?ms = ?f (?n - 1)"
    by (subst upt) simp
  have parts_left: "\<forall>m \<in> set (butlast ?ms). 0 < m_remainingParts (mailHdr m)"
    unfolding bl by (auto simp: arrived_chunk)
  have parts_none: "m_remainingParts (mailHdr (last ?ms)) \<le> 0"
    unfolding la using npos by (simp add: arrived_chunk)
  have "\<exists>buf' big' po'.
       ReliableReceive cfg ?peer1 ?b buf big =
         Returns (pktHdr (last ?ms), mailHdr (last ?ms), buf', big') po' \<and>
       cstring big' = cstring big @
         concat (map (\<lambda>m. cstring (take (m_length (mailHdr m)) (data m))) ?ms) \<and>
       boxes po' ! nat ?b = [] \<and>
       length (network po') = length (network ?peer1) + length ?ms \<and>
       sentMessages po' = sentMessages ?peer1"
    using assms(4,2) _ box ne each parts_left parts_none
  proof (rule ReliableReceive_concatenates)
    show "?b < numBoxes ?peer1" using assms(5) by (simp add: numBoxes_def)
    show "sentMessages ?peer1 = e0 # es" using assms(9) by simp
    show "m_from (mailHdr e0) \<noteq> ?b" by (rule assms(10))
  qed
  then obtain buf' big' po' where r:
    "ReliableReceive cfg ?peer1 ?b buf big =
         Returns (pktHdr (last ?ms), mailHdr (last ?ms), buf', big') po'"
    "cstring big' = cstring big @
         concat (map (\<lambda>m. cstring (take (m_length (mailHdr m)) (data m))) ?ms)"
    "length (network po') = length (network ?peer1) + length ?ms"
    by blast
  have e1: "map (\<lambda>m. cstring (take (m_length (mailHdr m)) (data m))) ?ms =
      map (\<lambda>i. cstring (piece cfg d i)) [0..<?n]"
    using bytes by simp
  have e2: "map (\<lambda>m. cstring (data m)) (map (chunk_mail cfg pktH mailH d) [0..<?n]) =
      map (\<lambda>i. cstring (piece cfg d i)) [0..<?n]"
    by (simp add: chunk_mail_def)
  have "concat (map (\<lambda>m. cstring (take (m_length (mailHdr m)) (data m))) ?ms) = cstring d"
    unfolding e1 e2 [symmetric] by (rule frag(5))
  with r(2) have c: "cstring big' = cstring big @ cstring d" by simp
  have z: "m_remainingParts (mailHdr (last ?ms)) = 0"
    unfolding la using npos by (simp add: arrived_chunk)
  have "deliver_all cfg peer ?pks = Returns () ?peer1 \<and>
     ReliableReceive cfg ?peer1 ?b buf big =
       Returns (pktHdr (last ?ms), mailHdr (last ?ms), buf', big') po' \<and>
     cstring big' = cstring big @ cstring d \<and>
     m_remainingParts (mailHdr (last ?ms)) = 0 \<and>
     length (network po') = length (network peer) + ?n"
    using d1 r(1,3) c z by simp
  then show ?thesis by blast
qed

text \<open>
  For the 25 characters: the three packets, delivered to box 2 of a peer whose only
  in-flight mail was sent from its box 1, are put together again by \<^verbatim>\<open>ReliableReceive\<close>.
\<close>

lemma twentyfive_bytes_reassembled:
  "\<exists>peer1 peer2 pktR mailR buf' big'.
     deliver_all cfg10 office_busy (map (on_the_wire cfg10 0)
        (map (chunk_mail cfg10 route01 (header 2 1 26) twentyfive)
           [0..<pieces cfg10 twentyfive])) = Returns () peer1 \<and>
     ReliableReceive cfg10 peer1 (m_to (header 2 1 26)) [] [] =
       Returns (pktR, mailR, buf', big') peer2 \<and>
     cstring big' = cstring [] @ cstring twentyfive \<and>
     m_remainingParts mailR = 0 \<and>
     length (network peer2) = length (network office_busy) + pieces cfg10 twentyfive"
proof -
  have l: "strlen twentyfive = 25"
    by (simp add: strlen_def cstring_def twentyfive_def NUL_def)
  have h: "2 \<le> MaxMailSize cfg10" "8 \<le> MaxMailSize cfg10" "MaxMailSize cfg10 < strlen twentyfive"
    by (simp_all add: cfg10_def l)
  have b: "0 \<le> m_to (header 2 1 26)" "m_to (header 2 1 26) < numBoxes office_busy"
    "boxes office_busy ! nat (m_to (header 2 1 26)) = []"
    "0 \<le> m_from (header 2 1 26)" "m_from (header 2 1 26) < numBoxes office_busy"
    by (simp_all add: header_def numBoxes_def office_busy_def office4_def)
  have s: "sentMessages office_busy = letter 2 1 ''ping'' # []"
    "m_from (mailHdr (letter 2 1 ''ping'')) \<noteq> m_to (header 2 1 26)"
    by (simp_all add: office_busy_def office4_def letter_def header_def)
  show ?thesis
    by (rule reassembly_at_the_peer [OF h b s])
qed

lemma strlen_ten: "strlen ten = 10"
  by (simp add: strlen_def cstring_def ten_def NUL_def)

text \<open>
  Claim C1. A string of exactly \<^verbatim>\<open>MaxMailSize\<close> characters is larger than
  \<^verbatim>\<open>MaxMailSize - 1\<close> bytes and would make two pieces, but the code tests
  \<^verbatim>\<open>strlen(data) > MaxMailSize\<close> and takes the single-mail branch: with
  \<^verbatim>\<open>mailHdr.length = strlen + 1\<close> the assertion of the \<^verbatim>\<open>Mail\<close> constructor fails; with
  \<^verbatim>\<open>mailHdr.length = strlen\<close> one mail goes out, and its backup holds the ten characters
  with no terminator. At a peer with no mail in flight, \<^verbatim>\<open>ReliableReceive\<close> ends in the
  read through \<^verbatim>\<open>NULL\<close> of \<^verbatim>\<open>Get\<close>.
\<close>

theorem ReliableSend_at_MaxMailSize:
  "strlen ten = MaxMailSize cfg10 \<and> MaxMailSize cfg10 - 1 < strlen ten \<and>
   pieces cfg10 ten = 2 \<and>
   ReliableSend cfg10 office4 route01 (header 2 1 11) ten = Fatal AssertionFailed \<and>
   ReliableSend cfg10 office4 route01 (header 2 1 10) ten =
     Waiting (office4\<lparr>sentMessages := [\<lparr>pktHdr = route01, mailHdr = header 2 1 10,
                  data = ''0123456789'', remainingParts = 0, attempts = 1\<rparr>],
        network := [(\<lparr>p_to = 1, p_from = 0, p_length = 26\<rparr>, header 2 1 10, ''0123456789'')],
        timers := 1\<rparr>) \<and>
   ReliableReceive cfg10 office_hello 2 [] [] = Fatal NullDereference"
proof -
  have m: "MaxMailSize cfg10 = 10"
    by (simp add: cfg10_def)
  have p: "pieces cfg10 ten = 2"
    by (simp add: pieces_def divRoundUp_def strlen_ten m)
  have small: "ReliableSend cfg10 office4 route01 h ten = ReliableSend_small cfg10 office4 route01 h ten"
    for h
    by (subst ReliableSend.simps) (simp add: strlen_ten m)
  have a: "ReliableSend cfg10 office4 route01 (header 2 1 11) ten = Fatal AssertionFailed"
    unfolding small by (simp add: ReliableSend_small_def Mail_new_def header_def m)
  have b: "ReliableSend cfg10 office4 route01 (header 2 1 10) ten =
     Waiting (office4\<lparr>sentMessages := [\<lparr>pktHdr = route01, mailHdr = header 2 1 10,
                  data = ''0123456789'', remainingParts = 0, attempts = 1\<rparr>],
        network := [(\<lparr>p_to = 1, p_from = 0, p_length = 26\<rparr>, header 2 1 10, ''0123456789'')],
        timers := 1\<rparr>)"
    unfolding small
    by (simp add: small_first header_def cfg10_def office4_def numBoxes_def route01_def
        strncpy_def cstring_def ten_def NUL_def)
  have c: "ReliableReceive cfg10 office_hello 2 [] [] = Fatal NullDereference"
    by (subst ReliableReceive.simps)
       (simp add: Get_null numBoxes_def office_hello_def office4_def)
  from m p a b c show ?thesis
    by (simp add: strlen_ten)
qed

end
